theory Spec2Isabelle
  imports Main "HOL-Library.Product_Lexorder" "HOL-Library.AList"
begin

section \<open>LogStore: constants and data\<close>

text \<open>
  The embedded code is the class \<open>LogStore\<close> (the Cassandra-backed message log):
  \<open>store\<close>, \<open>requestLast\<close>, \<open>requestFrom\<close>, \<open>requestRange\<close>, \<open>fetchRange\<close>,
  \<open>parseRow\<close>, \<open>createResultStream\<close>, \<open>close\<close> and the four summary queries.
  JavaScript numbers are modelled as \<open>int\<close>, strings as \<open>string\<close>, an optional
  argument (\<open>undefined\<close> when not supplied) as an \<open>option\<close>.
\<close>

definition MIN_SEQUENCE_NUMBER_VALUE :: int where
  "MIN_SEQUENCE_NUMBER_VALUE = 0"

definition MAX_SEQUENCE_NUMBER_VALUE :: int where
  "MAX_SEQUENCE_NUMBER_VALUE = 2147483647"

definition MAX_TIMESTAMP_VALUE :: int where
  "MAX_TIMESTAMP_VALUE = 8640000000000000"

definition MAX_RESEND_LAST :: int where
  "MAX_RESEND_LAST = 10000"

text \<open>A JavaScript \<open>Error\<close> with its message, thrown or passed to a callback.\<close>

datatype error = Error string

type_synonym BucketId = string

text \<open>
  The truthiness test of \<open>if (x)\<close> on a value of type \<open>string | undefined\<close>:
  \<open>undefined\<close> and the empty string are falsy.
\<close>

definition truthy :: "string option \<Rightarrow> bool" where
  "truthy x = (case x of None \<Rightarrow> False | Some s \<Rightarrow> s \<noteq> [])"

subsection \<open>The backend tables\<close>

text \<open>
  A row of the table \<open>stream_data\<close>, with the columns the queries of \<open>LogStore\<close>
  name. The \<open>payload\<close> column may be null (\<open>None\<close>).
\<close>

record stream_data_row =
  sd_stream_id :: string
  sd_partition :: int
  sd_bucket_id :: BucketId
  sd_ts :: int
  sd_sequence_no :: int
  sd_publisher_id :: string
  sd_msg_chain_id :: string
  sd_payload :: "string option"

text \<open>A row of the table \<open>bucket\<close>; \<open>records\<close> and \<open>size\<close> are 32-bit integer columns.\<close>

record bucket_row =
  bk_id :: BucketId
  bk_stream_id :: string
  bk_partition :: int
  bk_date_create :: int
  bk_records :: int
  bk_size :: int

text \<open>
  The conjuncts of a \<open>WHERE\<close> clause with their bound parameters, in the order the
  clause is written. \<open>q.where += ' AND publisher_id = ?'; q.params.push(publisherId)\<close>
  appends \<open>PublisherIdEq publisherId\<close>.
\<close>

datatype cond =
    StreamIdEq string
  | PartitionEq int
  | BucketIdIn "BucketId list"
  | TsGe int
  | TsLe int
  | TsEq int
  | TsGt int
  | TsLt int
  | SequenceNoGe int
  | SequenceNoLe int
  | PublisherIdEq string
  | MsgChainIdEq string

fun holds :: "cond \<Rightarrow> stream_data_row \<Rightarrow> bool" where
  "holds (StreamIdEq s) r = (sd_stream_id r = s)"
| "holds (PartitionEq p) r = (sd_partition r = p)"
| "holds (BucketIdIn ids) r = (sd_bucket_id r \<in> set ids)"
| "holds (TsGe t) r = (sd_ts r \<ge> t)"
| "holds (TsLe t) r = (sd_ts r \<le> t)"
| "holds (TsEq t) r = (sd_ts r = t)"
| "holds (TsGt t) r = (sd_ts r > t)"
| "holds (TsLt t) r = (sd_ts r < t)"
| "holds (SequenceNoGe n) r = (sd_sequence_no r \<ge> n)"
| "holds (SequenceNoLe n) r = (sd_sequence_no r \<le> n)"
| "holds (PublisherIdEq s) r = (sd_publisher_id r = s)"
| "holds (MsgChainIdEq s) r = (sd_msg_chain_id r = s)"

text \<open>
  The calls \<open>LogStore\<close> issues to the Cassandra client and to the bucket manager on
  its read paths, with their parameters. \<open>EachRow_GET_BUCKETS s p n\<close> is the request
  of page \<open>n\<close> of the paged bucket listing (\<open>eachRow\<close> for page 0, \<open>result.nextPage()\<close>
  for every later page).
\<close>

datatype backend_call =
    EachRow_GET_BUCKETS string int nat
  | Execute_COUNT_MESSAGES string int BucketId
  | Execute_GET_LAST_N_MESSAGES string int "BucketId list" int
  | GetBucketsByTimestamp string int int int
  | Stream_SELECT_payload "cond list"
  | Execute_first_bucket string int
  | Execute_last_bucket string int
  | Execute_first_ts string int BucketId
  | Execute_last_ts string int BucketId
  | Execute_SUM_records string int
  | Execute_SUM_size string int
  | Execute_SELECT_size string int

text \<open>
  The environment of the read paths: the two tables (each list in the backend's own
  scan order), the failures the backend injects (\<open>fault c = Some e\<close>: the call \<open>c\<close>
  fails with \<open>e\<close>), the bucket manager's range lookup and the message codec's
  \<open>deserialize\<close>. \<open>BucketManager\<close> and \<open>StreamMessage\<close> are collaborators of
  \<open>LogStore\<close>; their operations are parameters here. Three more parameters are the
  driver's: whether a paged listing reports a further page after its last row
  (\<open>empty_last_page\<close>; that page is then empty), whether the failure of a streaming
  query is emitted before anything listens to its stream (\<open>unheard\<close>), and the page
  size of an \<open>execute\<close> that sets no \<open>fetchSize\<close> (\<open>default_fetchSize\<close>, 0 for no
  paging).
\<close>

record 'm env =
  db_stream_data :: "stream_data_row list"
  db_bucket :: "bucket_row list"
  fault :: "backend_call \<Rightarrow> error option"
  empty_last_page :: bool
  unheard :: "backend_call \<Rightarrow> bool"
  default_fetchSize :: nat
  getBucketsByTimestamp :: "string \<Rightarrow> int \<Rightarrow> int \<Rightarrow> int \<Rightarrow> error + bucket_row list"
  deserialize :: "string \<Rightarrow> 'm"

subsection \<open>The result stream\<close>

text \<open>
  \<open>ResendDebugInfo\<close>, the context logged with a null payload.
\<close>

record ResendDebugInfo =
  di_streamId :: string
  di_partition :: "int option"
  di_limit :: "int option"
  di_fromTimestamp :: "int option"
  di_toTimestamp :: "int option"
  di_fromSequenceNo :: "int option"
  di_toSequenceNo :: "int option"
  di_publisherId :: "string option"
  di_msgChainId :: "string option"

datatype stream_status = Open | Ended | Destroyed error

text \<open>
  The \<open>Transform\<close> stream of \<open>createResultStream\<close> with what it has made visible:
  the rows written into it (each row is the \<open>payload\<close> column of a stored row),
  the messages pushed to the consumer, the \<open>'read'\<close> notifications emitted, the
  error-log entries written for null payloads, and whether it was ended or destroyed.
  The pause of \<open>transform\<close> after 100 ms of work only postpones \<open>done()\<close>; it is not
  part of this state.
\<close>

record 'm result_stream =
  written :: "string option list"
  pushed :: "'m list"
  read_events :: "'m list"
  null_payload_log :: "ResendDebugInfo list"
  status :: stream_status

definition createResultStream :: "'m result_stream" where
  "createResultStream =
     \<lparr>written = [], pushed = [], read_events = [], null_payload_log = [], status = Open\<rparr>"

text \<open>
  \<open>parseRow\<close>: a result row is the \<open>payload\<close> column of a stored row. A null payload
  is logged and \<open>null\<close> is returned; otherwise the payload is deserialized, \<open>'read'\<close> is
  emitted and the message returned.
\<close>

definition parseRow ::
  "(string \<Rightarrow> 'm) \<Rightarrow> string option \<Rightarrow> ResendDebugInfo \<Rightarrow> 'm result_stream \<Rightarrow> 'm option \<times> 'm result_stream" where
  "parseRow deser row_payload debugInfo st =
     (case row_payload of
        None \<Rightarrow> (None, st\<lparr>null_payload_log := null_payload_log st @ [debugInfo]\<rparr>)
      | Some pl \<Rightarrow>
          (let streamMessage = deser pl
           in (Some streamMessage, st\<lparr>read_events := read_events st @ [streamMessage]\<rparr>)))"

definition transform ::
  "(string \<Rightarrow> 'm) \<Rightarrow> ResendDebugInfo \<Rightarrow> 'm result_stream \<Rightarrow> string option \<Rightarrow> 'm result_stream" where
  "transform deser debugInfo st row_payload =
     (case parseRow deser row_payload debugInfo (st\<lparr>written := written st @ [row_payload]\<rparr>) of
        (None, st') \<Rightarrow> st'
      | (Some message, st') \<Rightarrow> st'\<lparr>pushed := pushed st' @ [message]\<rparr>)"

definition write_rows ::
  "(string \<Rightarrow> 'm) \<Rightarrow> ResendDebugInfo \<Rightarrow> 'm result_stream \<Rightarrow> string option list \<Rightarrow> 'm result_stream" where
  "write_rows deser debugInfo st rows = foldl (transform deser debugInfo) st rows"

definition end_stream :: "'m result_stream \<Rightarrow> 'm result_stream" where
  "end_stream st = st\<lparr>status := Ended\<rparr>"

definition destroy :: "error \<Rightarrow> 'm result_stream \<Rightarrow> 'm result_stream" where
  "destroy err st = st\<lparr>status := Destroyed err\<rparr>"

text \<open>What a read operation leaves behind: the backend calls it issued, in order, and its stream.\<close>

record 'm read_result =
  calls :: "backend_call list"
  stream :: "'m result_stream"

section \<open>requestLast\<close>

text \<open>
  \<open>row.total.low\<close>: the driver returns \<open>COUNT(*)\<close> as a 64-bit \<open>Long\<close>, whose field
  \<open>low\<close> is its low 32 bits read as a signed integer.
\<close>

definition Long_low :: "int \<Rightarrow> int" where
  "Long_low n = (n + 2147483648) mod 4294967296 - 2147483648"

text \<open>\<open>GET_BUCKETS\<close>: \<open>SELECT id FROM bucket WHERE stream_id = ? AND partition = ?\<close>.\<close>

definition select_GET_BUCKETS :: "'m env \<Rightarrow> string \<Rightarrow> int \<Rightarrow> BucketId list" where
  "select_GET_BUCKETS e streamId part =
     map bk_id (filter (\<lambda>b. bk_stream_id b = streamId \<and> bk_partition b = part) (db_bucket e))"

text \<open>
  The listing is read with \<open>fetchSize: 1\<close>: every page holds one row, in the order
  in which the backend lists the bucket table (the statement has no \<open>ORDER BY\<close>). A
  listing with no row is one empty page. When the driver reports a further page after
  the last row (\<open>empty_last\<close>), the listing ends with an empty page.
\<close>

definition pages_fetchSize_1 :: "bool \<Rightarrow> 'a list \<Rightarrow> 'a list list" where
  "pages_fetchSize_1 empty_last xs =
     (if xs = [] then [[]] else map (\<lambda>x. [x]) xs @ (if empty_last then [[]] else []))"

text \<open>
  \<open>COUNT_MESSAGES\<close>:
  \<open>SELECT COUNT(*) AS total FROM stream_data WHERE stream_id = ? AND partition = ? AND bucket_id = ?\<close>.
\<close>

definition count_messages :: "'m env \<Rightarrow> string \<Rightarrow> int \<Rightarrow> BucketId \<Rightarrow> int" where
  "count_messages e streamId part bucketId =
     int (length (filter (\<lambda>r. sd_stream_id r = streamId \<and> sd_partition r = part \<and>
                              sd_bucket_id r = bucketId) (db_stream_data e)))"

definition execute_COUNT_MESSAGES :: "'m env \<Rightarrow> string \<Rightarrow> int \<Rightarrow> BucketId \<Rightarrow> error + int" where
  "execute_COUNT_MESSAGES e streamId part bucketId =
     (case fault e (Execute_COUNT_MESSAGES streamId part bucketId) of
        Some err \<Rightarrow> Inl err
      | None \<Rightarrow> Inr (count_messages e streamId part bucketId))"

text \<open>
  \<open>GET_LAST_N_MESSAGES\<close>:
  \<open>SELECT payload FROM stream_data WHERE stream_id = ? AND partition = ? AND bucket_id IN ?
  ORDER BY ts DESC, sequence_no DESC LIMIT ?\<close>.
  \<open>last_rows\<close> are the stored rows the query selects, newest first;
  the result set holds their \<open>payload\<close> column. A limit that is not positive
  selects no row here (a backend that rejects such a query is a \<open>fault\<close>).
\<close>

definition row_key :: "stream_data_row \<Rightarrow> int \<times> int" where
  "row_key r = (sd_ts r, sd_sequence_no r)"

definition last_rows :: "'m env \<Rightarrow> string \<Rightarrow> int \<Rightarrow> BucketId list \<Rightarrow> int \<Rightarrow> stream_data_row list" where
  "last_rows e streamId part bucketIds limit =
     take (nat limit)
       (rev (sort_key row_key
          (filter (\<lambda>r. sd_stream_id r = streamId \<and> sd_partition r = part \<and>
                        sd_bucket_id r \<in> set bucketIds) (db_stream_data e))))"

definition execute_GET_LAST_N_MESSAGES ::
  "'m env \<Rightarrow> string \<Rightarrow> int \<Rightarrow> BucketId list \<Rightarrow> int \<Rightarrow> error + string option list" where
  "execute_GET_LAST_N_MESSAGES e streamId part bucketIds limit =
     (case fault e (Execute_GET_LAST_N_MESSAGES streamId part bucketIds limit) of
        Some err \<Rightarrow> Inl err
      | None \<Rightarrow> Inr (map sd_payload (last_rows e streamId part bucketIds limit)))"

text \<open>
  \<open>makeLastQuery\<close>: the rows of the result set are reversed and written to the result
  stream, which is then ended; a failed query destroys the stream.
\<close>

definition makeLastQuery ::
  "'m env \<Rightarrow> string \<Rightarrow> int \<Rightarrow> int \<Rightarrow> ResendDebugInfo \<Rightarrow> BucketId list \<Rightarrow> 'm result_stream \<Rightarrow> 'm result_stream" where
  "makeLastQuery e streamId part limit debugInfo bucketIds resultStream =
     (case execute_GET_LAST_N_MESSAGES e streamId part bucketIds limit of
        Inl err \<Rightarrow> destroy err resultStream
      | Inr rows \<Rightarrow> end_stream (write_rows (deserialize e) debugInfo resultStream (rev rows)))"

text \<open>
  The variables the callbacks of \<open>eachRow\<close> share: \<open>bucketId\<close> (undefined until a row
  arrives), \<open>bucketIds\<close> and \<open>total\<close>.
\<close>

record scan_vars =
  sv_bucketId :: "BucketId option"
  sv_bucketIds :: "BucketId list"
  sv_total :: int

text \<open>The row callback: \<open>bucketId = row.id; bucketIds.push(bucketId)\<close>.\<close>

definition row_callback :: "scan_vars \<Rightarrow> BucketId \<Rightarrow> scan_vars" where
  "row_callback v row_id = v\<lparr>sv_bucketId := Some row_id, sv_bucketIds := sv_bucketIds v @ [row_id]\<rparr>"

text \<open>How the chain of end-of-page callbacks finishes.\<close>

datatype scan_end = EndStream | DestroyStream error | MakeLastQuery "BucketId list"

text \<open>
  The end-of-page callback of \<open>eachRow\<close>, for page number \<open>n\<close> holding the rows \<open>page\<close>,
  with the later pages \<open>rest\<close> (\<open>result.nextPage\<close> is defined when \<open>rest\<close> is not empty).
  It returns the backend calls issued from this page on and how the scan finishes.
  The guard on \<open>writableEnded\<close> and \<open>readableEnded\<close> is not part of the model: the
  stream is ended or destroyed only where the scan finishes, and the consumer is not
  modelled.
\<close>

fun eachRow_pages ::
  "'m env \<Rightarrow> string \<Rightarrow> int \<Rightarrow> int \<Rightarrow> nat \<Rightarrow> BucketId list \<Rightarrow> BucketId list list \<Rightarrow> scan_vars
     \<Rightarrow> backend_call list \<times> scan_end" where
  "eachRow_pages e streamId part limit n page rest v =
     (case fault e (EachRow_GET_BUCKETS streamId part n) of
        Some err \<Rightarrow> ([EachRow_GET_BUCKETS streamId part n], DestroyStream err)
      | None \<Rightarrow>
          (let v1 = foldl row_callback v page
           in if \<not> truthy (sv_bucketId v1)
              then ([EachRow_GET_BUCKETS streamId part n], EndStream)
              else
                (let bucketId = the (sv_bucketId v1)
                 in case execute_COUNT_MESSAGES e streamId part bucketId of
                      Inl err \<Rightarrow>
                        ([EachRow_GET_BUCKETS streamId part n,
                          Execute_COUNT_MESSAGES streamId part bucketId], DestroyStream err)
                    | Inr cnt \<Rightarrow>
                        (let v2 = v1\<lparr>sv_total := sv_total v1 + Long_low cnt\<rparr>
                         in case rest of
                              [] \<Rightarrow>
                                ([EachRow_GET_BUCKETS streamId part n,
                                  Execute_COUNT_MESSAGES streamId part bucketId],
                                 MakeLastQuery (sv_bucketIds v2))
                            | nxt # rest' \<Rightarrow>
                                if sv_total v2 < limit \<and> sv_total v2 < MAX_RESEND_LAST
                                then
                                  (case eachRow_pages e streamId part limit (Suc n) nxt rest' v2 of
                                     (cs, fin) \<Rightarrow>
                                       (EachRow_GET_BUCKETS streamId part n #
                                        Execute_COUNT_MESSAGES streamId part bucketId # cs, fin))
                                else
                                  ([EachRow_GET_BUCKETS streamId part n,
                                    Execute_COUNT_MESSAGES streamId part bucketId],
                                   MakeLastQuery (sv_bucketIds v2))))))"

definition requestLast :: "'m env \<Rightarrow> string \<Rightarrow> int \<Rightarrow> int \<Rightarrow> 'm read_result" where
  "requestLast e streamId part limit0 =
     (let limit = (if limit0 > MAX_RESEND_LAST then MAX_RESEND_LAST else limit0);
          debugInfo = \<lparr>di_streamId = streamId, di_partition = Some part, di_limit = Some limit,
                       di_fromTimestamp = None, di_toTimestamp = None, di_fromSequenceNo = None,
                       di_toSequenceNo = None, di_publisherId = None, di_msgChainId = None\<rparr>;
          resultStream = createResultStream;
          pages = pages_fetchSize_1 (empty_last_page e) (select_GET_BUCKETS e streamId part)
      in case eachRow_pages e streamId part limit 0 (hd pages) (tl pages)
                \<lparr>sv_bucketId = None, sv_bucketIds = [], sv_total = 0\<rparr> of
           (cs, EndStream) \<Rightarrow> \<lparr>calls = cs, stream = end_stream resultStream\<rparr>
         | (cs, DestroyStream err) \<Rightarrow> \<lparr>calls = cs, stream = destroy err resultStream\<rparr>
         | (cs, MakeLastQuery bucketIds) \<Rightarrow>
             \<lparr>calls = cs @ [Execute_GET_LAST_N_MESSAGES streamId part bucketIds limit],
              stream = makeLastQuery e streamId part limit debugInfo bucketIds resultStream\<rparr>)"

section \<open>fetchRange, requestFrom, requestRange\<close>

text \<open>\<open>bucketsToIds\<close>: \<open>buckets.map((bucket) => bucket.getId())\<close>.\<close>

definition bucketsToIds :: "bucket_row list \<Rightarrow> BucketId list" where
  "bucketsToIds buckets = map bk_id buckets"

text \<open>
  The \<open>queries\<close> array of \<open>fetchRange\<close> before the publisher and chain filters are
  appended: one query when the sequence numbers filter nothing out, three otherwise.
\<close>

definition range_queries ::
  "string \<Rightarrow> int \<Rightarrow> BucketId list \<Rightarrow> int \<Rightarrow> int \<Rightarrow> int \<Rightarrow> int \<Rightarrow> cond list list" where
  "range_queries streamId part bucketIds fromTimestamp fromSequenceNo toTimestamp toSequenceNo =
     (if fromSequenceNo = MIN_SEQUENCE_NUMBER_VALUE \<and> toSequenceNo = MAX_SEQUENCE_NUMBER_VALUE
      then
        [[StreamIdEq streamId, PartitionEq part, BucketIdIn bucketIds,
          TsGe fromTimestamp, TsLe toTimestamp]]
      else
        [[StreamIdEq streamId, PartitionEq part, BucketIdIn bucketIds,
          TsEq fromTimestamp, SequenceNoGe fromSequenceNo],
         [StreamIdEq streamId, PartitionEq part, BucketIdIn bucketIds,
          TsGt fromTimestamp, TsLt toTimestamp],
         [StreamIdEq streamId, PartitionEq part, BucketIdIn bucketIds,
          TsEq toTimestamp, SequenceNoLe toSequenceNo]])"

text \<open>
  The body of \<open>queries.forEach\<close>: \<open>if (publisherId)\<close> and \<open>if (msgChainId)\<close> test
  truthiness, so an empty string adds no filter.
\<close>

definition add_filters :: "string option \<Rightarrow> string option \<Rightarrow> cond list \<Rightarrow> cond list" where
  "add_filters publisherId msgChainId q =
     (let q1 = (if truthy publisherId then q @ [PublisherIdEq (the publisherId)] else q)
      in if truthy msgChainId then q1 @ [MsgChainIdEq (the msgChainId)] else q1)"

text \<open>
  What a streaming query delivers: its rows, or a failure. A failure is heard when
  \<open>merge2\<close> already listens to the stream (\<open>Fails\<close>), and unheard when it is emitted
  before that (\<open>FailsUnheard\<close>).
\<close>

datatype stream_outcome = Rows "string option list" | Fails error | FailsUnheard error

text \<open>
  \<open>queryWithStreamingResults\<close> for \<open>SELECT payload FROM stream_data WHERE ... ALLOW FILTERING\<close>:
  the payloads of the stored rows that satisfy every conjunct, in the backend's scan
  order, or the injected failure.
\<close>

definition select_payload :: "'m env \<Rightarrow> cond list \<Rightarrow> string option list" where
  "select_payload e q =
     map sd_payload (filter (\<lambda>r. list_all (\<lambda>c. holds c r) q) (db_stream_data e))"

definition queryWithStreamingResults :: "'m env \<Rightarrow> cond list \<Rightarrow> stream_outcome" where
  "queryWithStreamingResults e q =
     (case fault e (Stream_SELECT_payload q) of
        Some err \<Rightarrow> if unheard e (Stream_SELECT_payload q) then FailsUnheard err else Fails err
      | None \<Rightarrow> Rows (select_payload e q))"

text \<open>
  \<open>pipeline(merge2(...streams, {pipeError: true}), resultStream, ...)\<close>: \<open>merge2\<close>
  drains the streams given as separate arguments one after the other and listens for
  the error of a stream from the moment it turns to that stream; it turns to the first
  stream at once. A heard failure destroys the result stream, and the end of the last
  stream ends it. A stream whose failure was not heard never ends, and the result
  stream is then left as it is, neither ended nor destroyed. A failing query is taken
  to fail before it delivers a row. \<open>merge2_later\<close> is \<open>merge2\<close> from the second stream on.
\<close>

fun merge2_later ::
  "(string \<Rightarrow> 'm) \<Rightarrow> ResendDebugInfo \<Rightarrow> stream_outcome list \<Rightarrow> 'm result_stream
     \<Rightarrow> 'm result_stream" where
  "merge2_later deser debugInfo [] st = end_stream st"
| "merge2_later deser debugInfo (Rows rows # streams) st =
     merge2_later deser debugInfo streams (write_rows deser debugInfo st rows)"
| "merge2_later deser debugInfo (Fails err # streams) st = destroy err st"
| "merge2_later deser debugInfo (FailsUnheard err # streams) st = st"

definition pipeline_merge2 ::
  "(string \<Rightarrow> 'm) \<Rightarrow> ResendDebugInfo \<Rightarrow> stream_outcome list \<Rightarrow> 'm result_stream
     \<Rightarrow> 'm result_stream" where
  "pipeline_merge2 deser debugInfo streams st =
     (case streams of
        FailsUnheard err # later \<Rightarrow> destroy err st
      | _ \<Rightarrow> merge2_later deser debugInfo streams st)"

definition fetchRange ::
  "'m env \<Rightarrow> string \<Rightarrow> int \<Rightarrow> int \<Rightarrow> int \<Rightarrow> int \<Rightarrow> int \<Rightarrow> string option \<Rightarrow> string option
     \<Rightarrow> 'm read_result" where
  "fetchRange e streamId part fromTimestamp fromSequenceNo toTimestamp toSequenceNo publisherId msgChainId =
     (let debugInfo = \<lparr>di_streamId = streamId, di_partition = Some part, di_limit = None,
                       di_fromTimestamp = Some fromTimestamp, di_toTimestamp = Some toTimestamp,
                       di_fromSequenceNo = Some fromSequenceNo, di_toSequenceNo = Some toSequenceNo,
                       di_publisherId = publisherId, di_msgChainId = msgChainId\<rparr>;
          resultStream = createResultStream
      in case getBucketsByTimestamp e streamId part fromTimestamp toTimestamp of
           Inl err \<Rightarrow>
             \<lparr>calls = [GetBucketsByTimestamp streamId part fromTimestamp toTimestamp],
              stream = destroy err resultStream\<rparr>
         | Inr buckets \<Rightarrow>
             if length buckets = 0
             then \<lparr>calls = [GetBucketsByTimestamp streamId part fromTimestamp toTimestamp],
                   stream = end_stream resultStream\<rparr>
             else
               (let bucketIds = bucketsToIds buckets;
                    queries = map (add_filters publisherId msgChainId)
                                (range_queries streamId part bucketIds fromTimestamp fromSequenceNo
                                   toTimestamp toSequenceNo);
                    streams = map (queryWithStreamingResults e) queries
                in \<lparr>calls = GetBucketsByTimestamp streamId part fromTimestamp toTimestamp #
                             map Stream_SELECT_payload queries,
                     stream = pipeline_merge2 (deserialize e) debugInfo streams resultStream\<rparr>))"

definition requestFrom ::
  "'m env \<Rightarrow> string \<Rightarrow> int \<Rightarrow> int \<Rightarrow> int \<Rightarrow> string option \<Rightarrow> 'm read_result" where
  "requestFrom e streamId part fromTimestamp fromSequenceNo publisherId =
     fetchRange e streamId part fromTimestamp fromSequenceNo
       MAX_TIMESTAMP_VALUE MAX_SEQUENCE_NUMBER_VALUE publisherId None"

text \<open>\<open>requestRange\<close> throws before it calls \<open>fetchRange\<close>: \<open>Inl\<close> is the thrown error.\<close>

definition requestRange ::
  "'m env \<Rightarrow> string \<Rightarrow> int \<Rightarrow> int \<Rightarrow> int \<Rightarrow> int \<Rightarrow> int \<Rightarrow> string option \<Rightarrow> string option
     \<Rightarrow> error + 'm read_result" where
  "requestRange e streamId part fromTimestamp fromSequenceNo toTimestamp toSequenceNo publisherId msgChainId =
     (let isValidRequest =
            ((publisherId \<noteq> None \<and> msgChainId \<noteq> None) \<or> (publisherId = None \<and> msgChainId = None))
      in if \<not> isValidRequest
         then Inl (Error ''Invalid combination of requestFrom arguments'')
         else Inr (fetchRange e streamId part fromTimestamp fromSequenceNo toTimestamp toSequenceNo
                     publisherId msgChainId))"

text \<open>The backend calls a call of \<open>requestRange\<close> has issued when it returns or throws.\<close>

definition calls_issued :: "error + 'm read_result \<Rightarrow> backend_call list" where
  "calls_issued r = (case r of Inl err \<Rightarrow> [] | Inr res \<Rightarrow> calls res)"

section \<open>The summary queries\<close>

text \<open>
  \<open>SUM\<close> over a 32-bit integer column is computed by the backend in 32 bits and wraps
  (\<open>Cassandra's integer has overflown\<close>, as the code has it).
\<close>

definition int32 :: "int \<Rightarrow> int" where
  "int32 n = (n + 2147483648) mod 4294967296 - 2147483648"

definition bucket_rows_of :: "'m env \<Rightarrow> string \<Rightarrow> int \<Rightarrow> bucket_row list" where
  "bucket_rows_of e streamId part =
     filter (\<lambda>b. bk_stream_id b = streamId \<and> bk_partition b = part) (db_bucket e)"

definition data_rows_of :: "'m env \<Rightarrow> string \<Rightarrow> int \<Rightarrow> BucketId \<Rightarrow> stream_data_row list" where
  "data_rows_of e streamId part bucketId =
     filter (\<lambda>r. sd_stream_id r = streamId \<and> sd_partition r = part \<and> sd_bucket_id r = bucketId)
       (db_stream_data e)"

text \<open>
  \<open>cassandraClient.execute\<close> with \<open>{prepare: true}\<close> on the statement named by the call
  \<open>c\<close>: the injected failure, or the rows of the first page, which is all that
  \<open>res.rows\<close> holds.
\<close>

definition first_page :: "nat \<Rightarrow> 'a list \<Rightarrow> 'a list" where
  "first_page fetchSize rows = (if fetchSize = 0 then rows else take fetchSize rows)"

definition execute :: "'m env \<Rightarrow> backend_call \<Rightarrow> 'a list \<Rightarrow> error + 'a list" where
  "execute e c rows =
     (case fault e c of
        Some err \<Rightarrow> Inl err
      | None \<Rightarrow> Inr (first_page (default_fetchSize e) rows))"

text \<open>\<open>SELECT id FROM bucket WHERE stream_id=? AND partition=? ORDER BY date_create ASC LIMIT 1\<close>\<close>

definition execute_first_bucket :: "'m env \<Rightarrow> string \<Rightarrow> int \<Rightarrow> error + BucketId list" where
  "execute_first_bucket e streamId part =
     execute e (Execute_first_bucket streamId part)
       (take 1 (map bk_id (sort_key bk_date_create (bucket_rows_of e streamId part))))"

text \<open>\<open>SELECT id FROM bucket WHERE stream_id=? AND partition=? ORDER BY date_create DESC LIMIT 1\<close>\<close>

definition execute_last_bucket :: "'m env \<Rightarrow> string \<Rightarrow> int \<Rightarrow> error + BucketId list" where
  "execute_last_bucket e streamId part =
     execute e (Execute_last_bucket streamId part)
       (take 1 (map bk_id (rev (sort_key bk_date_create (bucket_rows_of e streamId part)))))"

text \<open>\<open>SELECT ts FROM stream_data WHERE stream_id=? AND partition=? AND bucket_id=? ORDER BY ts ASC LIMIT 1\<close>\<close>

definition execute_first_ts :: "'m env \<Rightarrow> string \<Rightarrow> int \<Rightarrow> BucketId \<Rightarrow> error + int list" where
  "execute_first_ts e streamId part bucketId =
     execute e (Execute_first_ts streamId part bucketId)
       (take 1 (map sd_ts (sort_key sd_ts (data_rows_of e streamId part bucketId))))"

text \<open>\<open>SELECT ts FROM stream_data WHERE stream_id=? AND partition=? AND bucket_id=? ORDER BY ts DESC LIMIT 1\<close>\<close>

definition execute_last_ts :: "'m env \<Rightarrow> string \<Rightarrow> int \<Rightarrow> BucketId \<Rightarrow> error + int list" where
  "execute_last_ts e streamId part bucketId =
     execute e (Execute_last_ts streamId part bucketId)
       (take 1 (map sd_ts (rev (sort_key sd_ts (data_rows_of e streamId part bucketId)))))"

text \<open>
  \<open>SELECT SUM(records) as count FROM bucket WHERE stream_id=? AND partition=?\<close>: an
  aggregate answers with one row, also when it selects no bucket.
\<close>

definition execute_SUM_records :: "'m env \<Rightarrow> string \<Rightarrow> int \<Rightarrow> error + int list" where
  "execute_SUM_records e streamId part =
     execute e (Execute_SUM_records streamId part)
       [int32 (sum_list (map bk_records (bucket_rows_of e streamId part)))]"

text \<open>\<open>SELECT SUM(size) as count FROM bucket WHERE stream_id=? AND partition=?\<close>\<close>

definition execute_SUM_size :: "'m env \<Rightarrow> string \<Rightarrow> int \<Rightarrow> error + int list" where
  "execute_SUM_size e streamId part =
     execute e (Execute_SUM_size streamId part)
       [int32 (sum_list (map bk_size (bucket_rows_of e streamId part)))]"

text \<open>\<open>SELECT size FROM bucket WHERE stream_id=? AND partition=?\<close>\<close>

definition execute_SELECT_size :: "'m env \<Rightarrow> string \<Rightarrow> int \<Rightarrow> error + int list" where
  "execute_SELECT_size e streamId part =
     execute e (Execute_SELECT_size streamId part) (map bk_size (bucket_rows_of e streamId part))"

text \<open>
  The four summary queries. A rejected \<open>execute\<close> rejects the returned promise
  (\<open>Inl\<close>); \<open>new Date(ts).getTime()\<close> is the timestamp in milliseconds, \<open>ts\<close> itself.
\<close>

definition getFirstMessageTimestampInStream :: "'m env \<Rightarrow> string \<Rightarrow> int \<Rightarrow> error + int" where
  "getFirstMessageTimestampInStream e streamId part =
     (case execute_first_bucket e streamId part of
        Inl err \<Rightarrow> Inl err
      | Inr buckets \<Rightarrow>
          if length buckets \<noteq> 1 then Inr 0
          else
            (let bucketId = hd buckets
             in case execute_first_ts e streamId part bucketId of
                  Inl err \<Rightarrow> Inl err
                | Inr streams \<Rightarrow> if length streams \<noteq> 1 then Inr 0 else Inr (hd streams)))"

definition getLastMessageTimestampInStream :: "'m env \<Rightarrow> string \<Rightarrow> int \<Rightarrow> error + int" where
  "getLastMessageTimestampInStream e streamId part =
     (case execute_last_bucket e streamId part of
        Inl err \<Rightarrow> Inl err
      | Inr buckets \<Rightarrow>
          if length buckets \<noteq> 1 then Inr 0
          else
            (let bucketId = hd buckets
             in case execute_last_ts e streamId part bucketId of
                  Inl err \<Rightarrow> Inl err
                | Inr streams \<Rightarrow> if length streams \<noteq> 1 then Inr 0 else Inr (hd streams)))"

definition getNumberOfMessagesInStream :: "'m env \<Rightarrow> string \<Rightarrow> int \<Rightarrow> error + int" where
  "getNumberOfMessagesInStream e streamId part =
     (case execute_SUM_records e streamId part of
        Inl err \<Rightarrow> Inl err
      | Inr rows \<Rightarrow> if length rows \<noteq> 1 then Inr 0 else Inr (hd rows))"

definition getTotalBytesInStream :: "'m env \<Rightarrow> string \<Rightarrow> int \<Rightarrow> error + int" where
  "getTotalBytesInStream e streamId part =
     (case execute_SUM_size e streamId part of
        Inl err \<Rightarrow> Inl err
      | Inr rows \<Rightarrow>
          if length rows \<noteq> 1 then Inr 0
          else
            (let count = hd rows
             in if count < 0
                then
                  (case execute_SELECT_size e streamId part of
                     Inl err \<Rightarrow> Inl err
                   | Inr size_rows \<Rightarrow> Inr (foldl (\<lambda>count row_size. count + row_size) 0 size_rows))
                else Inr count))"

section \<open>store and close\<close>

text \<open>
  A property of an options object: not there (\<open>Absent\<close>), or there with a value that
  may be \<open>undefined\<close> (\<open>Present None\<close>). Reading a property that is not there gives
  \<open>undefined\<close>.
\<close>

datatype 'a property = Absent | Present "'a option"

definition get_property :: "'a property \<Rightarrow> 'a option" where
  "get_property x = (case x of Absent \<Rightarrow> None | Present v \<Rightarrow> v)"

text \<open>
  \<open>LogStoreOptions\<close>. \<open>{...defaultOptions, ...opts}\<close> takes every property that \<open>opts\<close>
  has, also one whose value is \<open>undefined\<close>, and the default for the others.
\<close>

record LogStoreOptions =
  useTtl :: "bool property"
  retriesIntervalMilliseconds :: "int property"

definition defaultOptions :: LogStoreOptions where
  "defaultOptions =
     \<lparr>useTtl = Present (Some False), retriesIntervalMilliseconds = Present (Some 500)\<rparr>"

definition spread :: "LogStoreOptions \<Rightarrow> LogStoreOptions \<Rightarrow> LogStoreOptions" where
  "spread a b =
     \<lparr>useTtl = (case useTtl b of Absent \<Rightarrow> useTtl a | Present v \<Rightarrow> Present v),
      retriesIntervalMilliseconds =
        (case retriesIntervalMilliseconds b of
           Absent \<Rightarrow> retriesIntervalMilliseconds a
         | Present v \<Rightarrow> Present v)\<rparr>"

text \<open>The accessors of \<open>StreamMessage\<close> that \<open>store\<close> uses; \<open>serialize\<close> returns the bytes.\<close>

record 'm codec =
  getStreamId :: "'m \<Rightarrow> string"
  getStreamPartition :: "'m \<Rightarrow> int"
  getTimestamp :: "'m \<Rightarrow> int"
  serialize :: "'m \<Rightarrow> string"

definition byteLength :: "string \<Rightarrow> int" where
  "byteLength s = int (length s)"

datatype promise_state = Pending | Resolved bool | Rejected error

text \<open>
  A timeout armed by \<open>setTimeout\<close>: its delay (\<open>None\<close> when \<open>setTimeout\<close> was given
  \<open>undefined\<close>) and what its callback closes over
  (the key in \<open>pendingStores\<close>, the message, and the \<open>resolve\<close>/\<open>reject\<close> of the promise
  the caller holds).
\<close>

record 'm timeout =
  tm_delay :: "int option"
  tm_uuid :: nat
  tm_message :: 'm
  tm_promise :: nat

text \<open>The calls \<open>LogStore\<close> makes on its collaborators from \<open>store\<close> and \<open>close\<close>.\<close>

datatype 'm collaborator_call =
    IncrementBucket BucketId int
  | BatchManagerStore BucketId 'm
  | ClearTimeout nat
  | BucketManagerStop
  | BatchManagerStop
  | CassandraClientShutdown

text \<open>
  The state of a \<open>LogStore\<close> and of the event loop around it. \<open>pendingStores\<close> is the
  \<open>Map\<close> from generated keys to timeout handles, in insertion order; \<open>timeouts\<close> are
  the armed timeouts by handle; \<open>immediates\<close> the callbacks queued by \<open>setImmediate\<close>;
  \<open>batch_callbacks\<close> the messages the batch manager holds with the promise their
  callback settles. \<open>uuidv1()\<close> and \<open>setTimeout\<close> return fresh values, taken from the
  counters \<open>next_uuid\<close> and \<open>next_timeout\<close>. \<open>bm_getBucketId\<close> is what the bucket
  manager currently answers; \<open>bm_counters\<close> are its per-bucket size and record count.
\<close>

record 'm LogStore =
  opts :: LogStoreOptions
  pendingStores :: "(nat \<times> nat) list"
  timeouts :: "(nat \<times> 'm timeout) list"
  immediates :: "(BucketId \<times> 'm \<times> nat) list"
  batch_callbacks :: "(BucketId \<times> 'm \<times> nat) list"
  promises :: "nat \<Rightarrow> promise_state"
  write_events :: "'m list"
  next_uuid :: nat
  next_timeout :: nat
  next_promise :: nat
  bm_getBucketId :: "string \<Rightarrow> int \<Rightarrow> int \<Rightarrow> BucketId option"
  bm_counters :: "BucketId \<Rightarrow> int \<times> int"
  collaborator_calls :: "'m collaborator_call list"

definition constructor ::
  "(string \<Rightarrow> int \<Rightarrow> int \<Rightarrow> BucketId option) \<Rightarrow> LogStoreOptions \<Rightarrow> 'm LogStore" where
  "constructor bucket_lookup opts_given =
     \<lparr>opts = spread defaultOptions opts_given,
      pendingStores = [],
      timeouts = [],
      immediates = [],
      batch_callbacks = [],
      promises = (\<lambda>p. Pending),
      write_events = [],
      next_uuid = 0,
      next_timeout = 0,
      next_promise = 0,
      bm_getBucketId = bucket_lookup,
      bm_counters = (\<lambda>b. (0, 0)),
      collaborator_calls = []\<rparr>"

text \<open>
  Modelled from the spec: \<open>BucketManager.incrementBucket\<close> is not part of the source
  at hand. The spec's \<open>recordWrite(bucketId, sizeBytes)\<close> increments the bucket's
  counters: the size by \<open>sizeBytes\<close>, the record count by one.
\<close>

definition incrementBucket :: "(BucketId \<Rightarrow> int \<times> int) \<Rightarrow> BucketId \<Rightarrow> int \<Rightarrow> (BucketId \<Rightarrow> int \<times> int)" where
  "incrementBucket counters bucketId sizeBytes =
     counters(bucketId := (fst (counters bucketId) + sizeBytes, snd (counters bucketId) + 1))"

text \<open>\<open>resolve\<close> and \<open>reject\<close>: a promise settles once.\<close>

definition settle :: "nat \<Rightarrow> promise_state \<Rightarrow> 'm LogStore \<Rightarrow> 'm LogStore" where
  "settle p outcome st =
     (if promises st p = Pending then st\<lparr>promises := (promises st)(p := outcome)\<rparr> else st)"

text \<open>
  The body of \<open>store\<close> for a message whose result goes to the promise \<open>p\<close>. With a
  bucket id it increments the bucket and queues the hand-over to the batch manager
  with \<open>setImmediate\<close>; without one it arms a timeout and records it in \<open>pendingStores\<close>.
\<close>

definition store_body :: "'m codec \<Rightarrow> 'm \<Rightarrow> nat \<Rightarrow> 'm LogStore \<Rightarrow> 'm LogStore" where
  "store_body c streamMessage p st =
     (let bucketId = bm_getBucketId st (getStreamId c streamMessage)
                       (getStreamPartition c streamMessage) (getTimestamp c streamMessage)
      in if truthy bucketId
         then
           st\<lparr>bm_counters := incrementBucket (bm_counters st) (the bucketId)
                               (byteLength (serialize c streamMessage)),
              collaborator_calls := collaborator_calls st @
                 [IncrementBucket (the bucketId) (byteLength (serialize c streamMessage))],
              immediates := immediates st @ [(the bucketId, streamMessage, p)]\<rparr>
         else
           (let uuid = next_uuid st;
                handle = next_timeout st
            in st\<lparr>next_uuid := Suc uuid,
                  next_timeout := Suc handle,
                  timeouts := timeouts st @
                     [(handle, \<lparr>tm_delay = get_property (retriesIntervalMilliseconds (opts st)),
                                tm_uuid = uuid,
                                tm_message = streamMessage, tm_promise = p\<rparr>)],
                  pendingStores := AList.update uuid handle (pendingStores st)\<rparr>))"

text \<open>\<open>store\<close> called by a producer: a new pending promise, returned with the new state.\<close>

definition store :: "'m codec \<Rightarrow> 'm \<Rightarrow> 'm LogStore \<Rightarrow> 'm LogStore \<times> nat" where
  "store c streamMessage st =
     (let p = next_promise st
      in (store_body c streamMessage p
            (st\<lparr>next_promise := Suc p, promises := (promises st)(p := Pending)\<rparr>), p))"

text \<open>
  The timeout with handle \<open>h\<close> fires: the key is deleted from \<open>pendingStores\<close> and
  \<open>store\<close> runs again for the same message. The promise of the inner call only forwards
  to \<open>resolve\<close> and \<open>reject\<close> of the first (\<open>.then(resolve, reject)\<close>), so the body runs
  with the first promise. A handle that is not armed cannot fire.
\<close>

definition fire_timeout :: "'m codec \<Rightarrow> nat \<Rightarrow> 'm LogStore \<Rightarrow> 'm LogStore" where
  "fire_timeout c h st =
     (case map_of (timeouts st) h of
        None \<Rightarrow> st
      | Some t \<Rightarrow>
          store_body c (tm_message t) (tm_promise t)
            (st\<lparr>timeouts := AList.delete h (timeouts st),
                pendingStores := AList.delete (tm_uuid t) (pendingStores st)\<rparr>))"

text \<open>The first callback queued by \<open>setImmediate\<close> runs: \<open>batchManager.store(bucketId, streamMessage, cb)\<close>.\<close>

definition run_immediate :: "'m LogStore \<Rightarrow> 'm LogStore" where
  "run_immediate st =
     (case immediates st of
        [] \<Rightarrow> st
      | (bucketId, streamMessage, p) # rest \<Rightarrow>
          st\<lparr>immediates := rest,
             batch_callbacks := batch_callbacks st @ [(bucketId, streamMessage, p)],
             collaborator_calls := collaborator_calls st @ [BatchManagerStore bucketId streamMessage]\<rparr>)"

text \<open>
  The batch manager calls back for the message whose promise is \<open>p\<close>, with an error or
  without: \<open>reject(err)\<close>, or \<open>emit('write', streamMessage)\<close> and \<open>resolve(true)\<close>.
\<close>

definition batch_callback :: "nat \<Rightarrow> error option \<Rightarrow> 'm LogStore \<Rightarrow> 'm LogStore" where
  "batch_callback p err st =
     (case find (\<lambda>(bucketId, streamMessage, q). q = p) (batch_callbacks st) of
        None \<Rightarrow> st
      | Some (bucketId, streamMessage, q) \<Rightarrow>
          (let st1 = st\<lparr>batch_callbacks := filter (\<lambda>(b, m, q). q \<noteq> p) (batch_callbacks st)\<rparr>
           in case err of
                Some er \<Rightarrow> settle p (Rejected er) st1
              | None \<Rightarrow> settle p (Resolved True) (st1\<lparr>write_events := write_events st1 @ [streamMessage]\<rparr>)))"

text \<open>\<open>clearTimeout(timeout)\<close>; \<open>clearTimeout(undefined)\<close> does nothing.\<close>

definition clearTimeout :: "nat option \<Rightarrow> 'm LogStore \<Rightarrow> 'm LogStore" where
  "clearTimeout handle st =
     (case handle of
        None \<Rightarrow> st
      | Some h \<Rightarrow> st\<lparr>timeouts := AList.delete h (timeouts st),
                      collaborator_calls := collaborator_calls st @ [ClearTimeout h]\<rparr>)"

text \<open>The body of \<open>keys.forEach\<close> in \<open>close\<close>.\<close>

definition close_key :: "'m LogStore \<Rightarrow> nat \<Rightarrow> 'm LogStore" where
  "close_key st key =
     (let st1 = clearTimeout (map_of (pendingStores st) key) st
      in st1\<lparr>pendingStores := AList.delete key (pendingStores st1)\<rparr>)"

definition close :: "'m LogStore \<Rightarrow> 'm LogStore" where
  "close st =
     (let keys = map fst (pendingStores st);
          st1 = foldl close_key st keys
      in st1\<lparr>collaborator_calls := collaborator_calls st1 @
                 [BucketManagerStop, BatchManagerStop, CassandraClientShutdown]\<rparr>)"

text \<open>
  Every armed timeout is recorded in \<open>pendingStores\<close> under its own key, keys and
  handles are not reused, and the counters are beyond every handle and key in use.
\<close>

definition timeouts_registered :: "'m LogStore \<Rightarrow> bool" where
  "timeouts_registered st =
     (distinct (map fst (timeouts st)) \<and>
      distinct (map fst (pendingStores st)) \<and>
      list_all (\<lambda>(h, t). map_of (pendingStores st) (tm_uuid t) = Some h \<and> h < next_timeout st)
        (timeouts st) \<and>
      list_all (\<lambda>(uuid, h). uuid < next_uuid st) (pendingStores st))"

text \<open>
  What the event loop can run for a \<open>LogStore\<close> without a new call from a producer:
  an armed timeout fires, a queued immediate runs, the batch manager calls back.
\<close>

datatype event = Fire nat | Immediate | Callback nat "error option"

fun run_event :: "'m codec \<Rightarrow> 'm LogStore \<Rightarrow> event \<Rightarrow> 'm LogStore" where
  "run_event c st (Fire h) = fire_timeout c h st"
| "run_event c st Immediate = run_immediate st"
| "run_event c st (Callback p err) = batch_callback p err st"

definition run_events :: "'m codec \<Rightarrow> event list \<Rightarrow> 'm LogStore \<Rightarrow> 'm LogStore" where
  "run_events c evs st = foldl (run_event c) st evs"

text \<open>
  The states a \<open>LogStore\<close> can be in: constructed, then any interleaving of calls of
  \<open>store\<close> and \<open>close\<close>, events of the event loop, and changes of what the bucket
  manager knows.
\<close>

inductive reachable :: "'m codec \<Rightarrow> 'm LogStore \<Rightarrow> bool" for c :: "'m codec" where
  constructed: "reachable c (constructor bucket_lookup opts_given)"
| stored: "reachable c st \<Longrightarrow> reachable c (fst (store c streamMessage st))"
| event: "reachable c st \<Longrightarrow> reachable c (run_event c st ev)"
| buckets_changed: "reachable c st \<Longrightarrow> reachable c (st\<lparr>bm_getBucketId := bucket_lookup\<rparr>)"
| closed: "reachable c st \<Longrightarrow> reachable c (close st)"

section \<open>The strategy of requestLast as the specification words it\<close>

text \<open>
  Scan the buckets in the order of the listing; add each bucket's count to the running
  total; stop after the bucket with which the total is no longer below the limit or
  below the ceiling, or after the last bucket. \<open>accumulate_buckets\<close> is the list of
  buckets scanned, \<open>scan_calls\<close> the page requests and count queries of the scan.
\<close>

fun accumulate_buckets :: "(BucketId \<Rightarrow> int) \<Rightarrow> int \<Rightarrow> int \<Rightarrow> BucketId list \<Rightarrow> BucketId list" where
  "accumulate_buckets cnt limit running [] = []"
| "accumulate_buckets cnt limit running (b # bs) =
     (if bs = [] \<or> \<not> (running + cnt b < limit \<and> running + cnt b < MAX_RESEND_LAST)
      then [b]
      else b # accumulate_buckets cnt limit (running + cnt b) bs)"

fun scan_calls :: "string \<Rightarrow> int \<Rightarrow> nat \<Rightarrow> BucketId list \<Rightarrow> backend_call list" where
  "scan_calls streamId part n [] = []"
| "scan_calls streamId part n (b # bs) =
     EachRow_GET_BUCKETS streamId part n # Execute_COUNT_MESSAGES streamId part b #
     scan_calls streamId part (Suc n) bs"

text \<open>The payloads of the rows that are not null, in order.\<close>

definition non_null :: "string option list \<Rightarrow> string list" where
  "non_null rows = List.map_filter (\<lambda>row_payload. row_payload) rows"

section \<open>Example data\<close>

text \<open>
  Stream \<open>s1\<close>, partition 0: bucket \<open>A\<close> (older) and bucket \<open>B\<close> (newer), two records
  each; the record at timestamp 102 has a null payload. The bucket table lists the
  newer bucket first.
\<close>

definition example_rows :: "stream_data_row list" where
  "example_rows =
    [\<lparr>sd_stream_id = ''s1'', sd_partition = 0, sd_bucket_id = ''A'', sd_ts = 100, sd_sequence_no = 0,
      sd_publisher_id = ''p1'', sd_msg_chain_id = ''c1'', sd_payload = Some ''m100''\<rparr>,
     \<lparr>sd_stream_id = ''s1'', sd_partition = 0, sd_bucket_id = ''A'', sd_ts = 101, sd_sequence_no = 0,
      sd_publisher_id = ''p2'', sd_msg_chain_id = ''c2'', sd_payload = Some ''m101''\<rparr>,
     \<lparr>sd_stream_id = ''s1'', sd_partition = 0, sd_bucket_id = ''B'', sd_ts = 102, sd_sequence_no = 0,
      sd_publisher_id = ''p1'', sd_msg_chain_id = ''c1'', sd_payload = None\<rparr>,
     \<lparr>sd_stream_id = ''s1'', sd_partition = 0, sd_bucket_id = ''B'', sd_ts = 103, sd_sequence_no = 0,
      sd_publisher_id = ''p1'', sd_msg_chain_id = ''c1'', sd_payload = Some ''m103''\<rparr>]"

definition example_buckets :: "bucket_row list" where
  "example_buckets =
    [\<lparr>bk_id = ''B'', bk_stream_id = ''s1'', bk_partition = 0, bk_date_create = 102,
      bk_records = 2, bk_size = 8\<rparr>,
     \<lparr>bk_id = ''A'', bk_stream_id = ''s1'', bk_partition = 0, bk_date_create = 100,
      bk_records = 2, bk_size = 8\<rparr>]"

definition example_env :: "string env" where
  "example_env =
    \<lparr>db_stream_data = example_rows, db_bucket = example_buckets, fault = (\<lambda>c. None),
     empty_last_page = False, unheard = (\<lambda>c. False), default_fetchSize = 5000,
     getBucketsByTimestamp = (\<lambda>streamId part fromTimestamp toTimestamp. Inr (rev example_buckets)),
     deserialize = (\<lambda>pl. pl)\<rparr>"

definition example_key :: "string \<Rightarrow> int \<times> int" where
  "example_key m = (if m = ''m100'' then (100, 0) else if m = ''m101'' then (101, 0)
                    else if m = ''m102'' then (102, 0) else (103, 0))"

text \<open>Two buckets whose record counts and sizes add up to \<open>2^31\<close>.\<close>

definition overflow_env :: "string env" where
  "overflow_env =
    \<lparr>db_stream_data = [],
     db_bucket =
       [\<lparr>bk_id = ''B'', bk_stream_id = ''s1'', bk_partition = 0, bk_date_create = 102,
         bk_records = 1073741824, bk_size = 1073741824\<rparr>,
        \<lparr>bk_id = ''A'', bk_stream_id = ''s1'', bk_partition = 0, bk_date_create = 100,
         bk_records = 1073741824, bk_size = 1073741824\<rparr>],
     fault = (\<lambda>c. None),
     empty_last_page = False, unheard = (\<lambda>c. False), default_fetchSize = 5000,
     getBucketsByTimestamp = (\<lambda>streamId part fromTimestamp toTimestamp. Inr []),
     deserialize = (\<lambda>pl. pl)\<rparr>"

text \<open>
  A message is its serialized text here; every message belongs to stream \<open>s1\<close>,
  partition 0, and carries the timestamp 100.
\<close>

definition example_codec :: "string codec" where
  "example_codec =
    \<lparr>getStreamId = (\<lambda>m. ''s1''), getStreamPartition = (\<lambda>m. 0), getTimestamp = (\<lambda>m. 100),
     serialize = (\<lambda>m. m)\<rparr>"

text \<open>A store that knows no bucket yet, and one that knows bucket \<open>A\<close>.\<close>

definition example_store_no_bucket :: "string LogStore" where
  "example_store_no_bucket =
     constructor (\<lambda>streamId part timestamp. None)
       \<lparr>useTtl = Absent, retriesIntervalMilliseconds = Absent\<rparr>"

definition example_store_bucket :: "string LogStore" where
  "example_store_bucket =
     constructor (\<lambda>streamId part timestamp. Some ''A'')
       \<lparr>useTtl = Absent, retriesIntervalMilliseconds = Absent\<rparr>"

text \<open>
  A result stream forwards exactly its non-null rows: the messages pushed and the
  \<open>'read'\<close> notifications are the deserialized non-null payloads written so far, in
  order, and there is one log entry for every null payload.
\<close>

definition forwards_non_null :: "(string \<Rightarrow> 'm) \<Rightarrow> 'm result_stream \<Rightarrow> bool" where
  "forwards_non_null deser st =
     (pushed st = map deser (non_null (written st)) \<and>
      read_events st = map deser (non_null (written st)) \<and>
      length (null_payload_log st) = length (filter (\<lambda>row_payload. row_payload = None) (written st)))"

section \<open>Properties of the result stream\<close>

declare eachRow_pages.simps [simp del]

lemma non_null_simps:
  "non_null [] = []"
  "non_null (None # rows) = non_null rows"
  "non_null (Some pl # rows) = pl # non_null rows"
  "non_null (rows @ rows') = non_null rows @ non_null rows'"
  by (simp_all add: non_null_def List.map_filter_def)

lemma transform_fields:
  "written (transform d dbg st r) = written st @ [r]"
  "pushed (transform d dbg st r) = pushed st @ map d (non_null [r])"
  "read_events (transform d dbg st r) = read_events st @ map d (non_null [r])"
  "null_payload_log (transform d dbg st r) =
     null_payload_log st @ (case r of None \<Rightarrow> [dbg] | Some pl \<Rightarrow> [])"
  "status (transform d dbg st r) = status st"
  by (simp_all add: transform_def parseRow_def Let_def non_null_simps split: option.splits)

lemma write_rows_Nil: "write_rows d dbg st [] = st"
  by (simp add: write_rows_def)

lemma write_rows_Cons: "write_rows d dbg st (r # rows) = write_rows d dbg (transform d dbg st r) rows"
  by (simp add: write_rows_def)

lemma write_rows_written: "written (write_rows d dbg st rows) = written st @ rows"
  by (induction rows arbitrary: st) (simp_all add: write_rows_Nil write_rows_Cons transform_fields)

lemma write_rows_pushed: "pushed (write_rows d dbg st rows) = pushed st @ map d (non_null rows)"
proof (induction rows arbitrary: st)
  case Nil
  show ?case by (simp add: write_rows_Nil non_null_simps)
next
  case (Cons r rows)
  show ?case by (cases r) (simp_all add: write_rows_Cons Cons.IH transform_fields non_null_simps)
qed

lemma write_rows_read_events:
  "read_events (write_rows d dbg st rows) = read_events st @ map d (non_null rows)"
proof (induction rows arbitrary: st)
  case Nil
  show ?case by (simp add: write_rows_Nil non_null_simps)
next
  case (Cons r rows)
  show ?case by (cases r) (simp_all add: write_rows_Cons Cons.IH transform_fields non_null_simps)
qed

lemma write_rows_log:
  "length (null_payload_log (write_rows d dbg st rows)) =
     length (null_payload_log st) + length (filter (\<lambda>r. r = None) rows)"
proof (induction rows arbitrary: st)
  case Nil
  show ?case by (simp add: write_rows_Nil)
next
  case (Cons r rows)
  show ?case by (cases r) (simp_all add: write_rows_Cons Cons.IH transform_fields)
qed

lemma write_rows_status: "status (write_rows d dbg st rows) = status st"
  by (induction rows arbitrary: st) (simp_all add: write_rows_Nil write_rows_Cons transform_fields)

lemma forwards_createResultStream: "forwards_non_null d createResultStream"
  by (simp add: forwards_non_null_def createResultStream_def non_null_simps)

lemma forwards_write_rows:
  "forwards_non_null d st \<Longrightarrow> forwards_non_null d (write_rows d dbg st rows)"
  by (simp add: forwards_non_null_def write_rows_written write_rows_pushed write_rows_read_events
      write_rows_log non_null_simps)

lemma forwards_end_stream: "forwards_non_null d st \<Longrightarrow> forwards_non_null d (end_stream st)"
  by (simp add: forwards_non_null_def end_stream_def)

lemma forwards_destroy: "forwards_non_null d st \<Longrightarrow> forwards_non_null d (destroy err st)"
  by (simp add: forwards_non_null_def destroy_def)

lemma forwards_merge2_later:
  "forwards_non_null d st \<Longrightarrow> forwards_non_null d (merge2_later d dbg streams st)"
  by (induction d dbg streams st rule: merge2_later.induct)
     (simp_all add: forwards_end_stream forwards_destroy forwards_write_rows)

lemma forwards_pipeline_merge2:
  assumes "forwards_non_null d st"
  shows "forwards_non_null d (pipeline_merge2 d dbg streams st)"
proof (cases "\<exists>err later. streams = FailsUnheard err # later")
  case True
  with assms show ?thesis
    by (auto simp: pipeline_merge2_def forwards_destroy)
next
  case False
  then have "pipeline_merge2 d dbg streams st = merge2_later d dbg streams st"
    by (simp add: pipeline_merge2_def split: list.splits stream_outcome.splits)
  with assms show ?thesis
    by (simp add: forwards_merge2_later)
qed

lemma forwards_makeLastQuery:
  "forwards_non_null (deserialize e) st \<Longrightarrow>
   forwards_non_null (deserialize e) (makeLastQuery e s p lim dbg ids st)"
  by (simp add: makeLastQuery_def forwards_end_stream forwards_destroy forwards_write_rows
      split: sum.splits)

section \<open>requestLast: bound and order\<close>

lemma eachRow_pages_destroy:
  "eachRow_pages e s p lim n page rest v = (cs, DestroyStream err) \<Longrightarrow> \<exists>c. fault e c = Some err"
proof (induction rest arbitrary: n page v cs)
  case Nil
  then show ?case
    by (subst (asm) eachRow_pages.simps)
       (auto simp: Let_def execute_COUNT_MESSAGES_def split: option.splits if_splits sum.splits)
next
  case (Cons nxt rest)
  from Cons.prems show ?case
    by (subst (asm) eachRow_pages.simps)
       (auto simp: Let_def execute_COUNT_MESSAGES_def dest: Cons.IH
             split: option.splits if_splits sum.splits prod.splits)
qed

lemma clamp_limit: "(if limit > MAX_RESEND_LAST then MAX_RESEND_LAST else limit) = min limit MAX_RESEND_LAST"
  by (simp add: min_def)

lemma requestLast_cases:
  obtains
    (ended) cs where
      "requestLast e s p limit = \<lparr>calls = cs, stream = end_stream createResultStream\<rparr>"
  | (destroyed) cs err c where
      "requestLast e s p limit = \<lparr>calls = cs, stream = destroy err createResultStream\<rparr>"
      "fault e c = Some err"
  | (last_query) cs ids dbg where
      "requestLast e s p limit =
         \<lparr>calls = cs @ [Execute_GET_LAST_N_MESSAGES s p ids (min limit MAX_RESEND_LAST)],
          stream = makeLastQuery e s p (min limit MAX_RESEND_LAST) dbg ids createResultStream\<rparr>"
proof -
  define lim where "lim = min limit MAX_RESEND_LAST"
  define pages where "pages = pages_fetchSize_1 (empty_last_page e) (select_GET_BUCKETS e s p)"
  obtain cs fin where scan:
    "eachRow_pages e s p lim 0 (hd pages) (tl pages)
       \<lparr>sv_bucketId = None, sv_bucketIds = [], sv_total = 0\<rparr> = (cs, fin)"
    by (cases "eachRow_pages e s p lim 0 (hd pages) (tl pages)
       \<lparr>sv_bucketId = None, sv_bucketIds = [], sv_total = 0\<rparr>")
  show thesis
  proof (cases fin)
    case EndStream
    with scan have "requestLast e s p limit = \<lparr>calls = cs, stream = end_stream createResultStream\<rparr>"
      by (simp add: requestLast_def clamp_limit Let_def lim_def pages_def)
    then show thesis by (rule ended)
  next
    case (DestroyStream err)
    with scan have R: "requestLast e s p limit = \<lparr>calls = cs, stream = destroy err createResultStream\<rparr>"
      by (simp add: requestLast_def clamp_limit Let_def lim_def pages_def)
    from scan DestroyStream obtain c where "fault e c = Some err"
      using eachRow_pages_destroy by blast
    with R show thesis by (rule destroyed)
  next
    case (MakeLastQuery ids)
    with scan have "requestLast e s p limit =
         \<lparr>calls = cs @ [Execute_GET_LAST_N_MESSAGES s p ids (min limit MAX_RESEND_LAST)],
          stream = makeLastQuery e s p (min limit MAX_RESEND_LAST)
            \<lparr>di_streamId = s, di_partition = Some p, di_limit = Some (min limit MAX_RESEND_LAST),
             di_fromTimestamp = None, di_toTimestamp = None, di_fromSequenceNo = None,
             di_toSequenceNo = None, di_publisherId = None, di_msgChainId = None\<rparr>
            ids createResultStream\<rparr>"
      by (simp add: requestLast_def clamp_limit Let_def lim_def pages_def)
    then show thesis by (rule last_query)
  qed
qed

lemma length_non_null_le: "length (non_null rows) \<le> length rows"
  by (simp add: non_null_def List.map_filter_def)

lemma length_last_rows: "length (last_rows e s p ids limit) \<le> nat limit"
  by (simp add: last_rows_def)

lemma non_null_payloads: "non_null (map sd_payload rs) = List.map_filter sd_payload rs"
  by (simp add: non_null_def List.map_filter_def filter_map comp_def)

lemma makeLastQuery_pushed_cases:
  "pushed (makeLastQuery e s p limit dbg ids createResultStream) = [] \<or>
   pushed (makeLastQuery e s p limit dbg ids createResultStream) =
     map (deserialize e) (List.map_filter sd_payload (rev (last_rows e s p ids limit)))"
  by (simp add: makeLastQuery_def execute_GET_LAST_N_MESSAGES_def destroy_def end_stream_def
      write_rows_pushed createResultStream_def rev_map non_null_payloads
      split: option.splits)

lemma sorted_rev_take_rev:
  "sorted (map k ys) \<Longrightarrow> sorted (map k (rev (take n (rev ys))))"
  by (simp add: rev_take drop_map [symmetric] sorted_wrt_drop del: drop_map)

lemma last_rows_ascending: "sorted (map row_key (rev (last_rows e s p ids limit)))"
  unfolding last_rows_def by (rule sorted_rev_take_rev) simp

lemma set_last_rows: "set (last_rows e s p ids limit) \<subseteq> set (db_stream_data e)"
  unfolding last_rows_def by (auto dest: in_set_takeD)

lemma map_key_map_filter:
  assumes "\<forall>r \<in> set rs. \<forall>pl. sd_payload r = Some pl \<longrightarrow> key (d pl) = row_key r"
  shows "map key (map d (List.map_filter sd_payload rs)) =
         map row_key (filter (\<lambda>r. sd_payload r \<noteq> None) rs)"
  using assms by (induction rs) (auto simp: List.map_filter_simps split: option.splits)

text \<open>
  C1. \<open>requestLast\<close> pushes at most \<open>min(limit, 10000)\<close> messages. Whatever it pushes
  comes from the one final query \<open>GET_LAST_N_MESSAGES\<close>, issued last with the clamped
  limit: the rows that query selects newest first, reversed, without the null
  payloads. When every stored payload deserializes to a message with the timestamp and
  sequence number of its row, the messages pushed are in ascending
  (timestamp, sequenceNumber) order.
\<close>

theorem requestLast_bounded_ascending:
  "length (pushed (stream (requestLast e streamId part limit))) \<le> nat (min limit MAX_RESEND_LAST)
   \<and> (pushed (stream (requestLast e streamId part limit)) = []
      \<or> (\<exists>bucketIds.
            last (calls (requestLast e streamId part limit)) =
              Execute_GET_LAST_N_MESSAGES streamId part bucketIds (min limit MAX_RESEND_LAST)
          \<and> pushed (stream (requestLast e streamId part limit)) =
              map (deserialize e) (List.map_filter sd_payload
                (rev (last_rows e streamId part bucketIds (min limit MAX_RESEND_LAST))))))
   \<and> ((\<forall>r \<in> set (db_stream_data e). \<forall>pl. sd_payload r = Some pl \<longrightarrow>
          key (deserialize e pl) = row_key r)
        \<longrightarrow> sorted (map key (pushed (stream (requestLast e streamId part limit)))))"
proof (cases e streamId part limit rule: requestLast_cases)
  case (ended cs)
  then show ?thesis by (simp add: end_stream_def createResultStream_def)
next
  case (destroyed cs err c)
  then show ?thesis by (simp add: destroy_def createResultStream_def)
next
  case (last_query cs ids dbg)
  define lim where "lim = min limit MAX_RESEND_LAST"
  let ?P = "pushed (makeLastQuery e streamId part lim dbg ids createResultStream)"
  let ?rows = "rev (last_rows e streamId part ids lim)"
  note R = last_query [folded lim_def]
  from makeLastQuery_pushed_cases [of e streamId part lim dbg ids]
  consider (empty) "?P = []" | (rows) "?P = map (deserialize e) (List.map_filter sd_payload ?rows)"
    by blast
  then show ?thesis
  proof cases
    case empty
    then show ?thesis by (simp add: R lim_def [symmetric])
  next
    case rows
    have "length (List.map_filter sd_payload ?rows) \<le> length ?rows"
      unfolding List.map_filter_def length_map by (rule length_filter_le)
    then have len: "length ?P \<le> nat lim"
      using length_last_rows [of e streamId part ids lim] by (simp add: rows)
    have srt: "sorted (map key ?P)"
      if H: "\<forall>r \<in> set (db_stream_data e). \<forall>pl. sd_payload r = Some pl \<longrightarrow>
               key (deserialize e pl) = row_key r"
    proof -
      have "\<forall>r \<in> set ?rows. \<forall>pl. sd_payload r = Some pl \<longrightarrow> key (deserialize e pl) = row_key r"
        using H set_last_rows [of e streamId part ids lim] by auto
      then have "map key ?P = map row_key (filter (\<lambda>r. sd_payload r \<noteq> None) ?rows)"
        unfolding rows by (rule map_key_map_filter)
      then show ?thesis
        using sorted_filter [OF last_rows_ascending [of e streamId part ids lim]] by simp
    qed
    show ?thesis
      using len srt rows by (auto simp: R lim_def [symmetric])
  qed
qed

theorem requestLast_bounded_ascending_witness:
  "pushed (stream (requestLast example_env ''s1'' 0 3)) = [''m101'', ''m103'']
   \<and> length (pushed (stream (requestLast example_env ''s1'' 0 3))) \<le> 3
   \<and> sorted (map example_key (pushed (stream (requestLast example_env ''s1'' 0 3))))"
proof -
  have H: "\<forall>r \<in> set (db_stream_data example_env). \<forall>pl. sd_payload r = Some pl \<longrightarrow>
             example_key (deserialize example_env pl) = row_key r"
    by (simp add: example_env_def example_rows_def example_key_def row_key_def)
  have P: "pushed (stream (requestLast example_env ''s1'' 0 3)) = [''m101'', ''m103'']"
    by code_simp
  show ?thesis
    using requestLast_bounded_ascending [of example_env "''s1''" 0 3 example_key] H P
    by (simp add: MAX_RESEND_LAST_def)
qed

section \<open>Null payloads on the read paths\<close>

lemma merge2_later_destroyed:
  "status (merge2_later d dbg streams st) = Destroyed err \<Longrightarrow> status st = Open \<Longrightarrow>
   Fails err \<in> set streams"
  by (induction d dbg streams st rule: merge2_later.induct)
     (auto simp: end_stream_def destroy_def write_rows_status)

lemma pipeline_merge2_destroyed:
  assumes "status (pipeline_merge2 d dbg streams st) = Destroyed err" and "status st = Open"
  shows "Fails err \<in> set streams \<or> FailsUnheard err \<in> set streams"
proof (cases "\<exists>err later. streams = FailsUnheard err # later")
  case True
  with assms(1) show ?thesis
    by (auto simp: pipeline_merge2_def destroy_def)
next
  case False
  then have "pipeline_merge2 d dbg streams st = merge2_later d dbg streams st"
    by (simp add: pipeline_merge2_def split: list.splits stream_outcome.splits)
  with assms show ?thesis
    using merge2_later_destroyed [of d dbg streams st err] by simp
qed

lemma queryWithStreamingResults_fails:
  "queryWithStreamingResults e q = Fails err \<or> queryWithStreamingResults e q = FailsUnheard err
   \<Longrightarrow> \<exists>c. fault e c = Some err"
  by (auto simp: queryWithStreamingResults_def split: option.splits if_splits)

lemma fetchRange_forwards:
  "forwards_non_null (deserialize e) (stream (fetchRange e s p ft fs tt tseq pub chain))"
  by (simp add: fetchRange_def Let_def forwards_createResultStream forwards_destroy
      forwards_end_stream forwards_pipeline_merge2 split: sum.splits)

lemma fetchRange_destroyed:
  assumes "status (stream (fetchRange e s p ft fs tt tseq pub chain)) = Destroyed err"
  shows "(\<exists>c. fault e c = Some err) \<or> getBucketsByTimestamp e s p ft tt = Inl err"
proof (cases "getBucketsByTimestamp e s p ft tt")
  case (Inl err')
  with assms show ?thesis
    by (simp add: fetchRange_def Let_def destroy_def)
next
  case (Inr buckets)
  show ?thesis
  proof (cases "buckets = []")
    case True
    with assms Inr show ?thesis
      by (simp add: fetchRange_def Let_def end_stream_def)
  next
    case False
    define streams where "streams = map (queryWithStreamingResults e)
         (map (add_filters pub chain) (range_queries s p (bucketsToIds buckets) ft fs tt tseq))"
    define dbg where "dbg = \<lparr>di_streamId = s, di_partition = Some p, di_limit = None,
            di_fromTimestamp = Some ft, di_toTimestamp = Some tt,
            di_fromSequenceNo = Some fs, di_toSequenceNo = Some tseq,
            di_publisherId = pub, di_msgChainId = chain\<rparr>"
    from assms Inr False
    have "status (pipeline_merge2 (deserialize e) dbg streams createResultStream) = Destroyed err"
      by (simp add: fetchRange_def Let_def streams_def dbg_def)
    moreover have "status (createResultStream :: 'a result_stream) = Open"
      by (simp add: createResultStream_def)
    ultimately have "Fails err \<in> set streams \<or> FailsUnheard err \<in> set streams"
      by (rule pipeline_merge2_destroyed)
    then consider "Fails err \<in> set streams" | "FailsUnheard err \<in> set streams"
      by blast
    then have "\<exists>c. fault e c = Some err"
    proof cases
      case 1
      then obtain q where "queryWithStreamingResults e q = Fails err"
        by (auto simp: streams_def)
      then show ?thesis
        using queryWithStreamingResults_fails by blast
    next
      case 2
      then obtain q where "queryWithStreamingResults e q = FailsUnheard err"
        by (auto simp: streams_def)
      then show ?thesis
        using queryWithStreamingResults_fails by blast
    qed
    then show ?thesis by simp
  qed
qed

lemma requestLast_forwards:
  "forwards_non_null (deserialize e) (stream (requestLast e s p limit))"
  by (cases e s p limit rule: requestLast_cases)
     (simp_all add: forwards_createResultStream forwards_destroy forwards_end_stream
        forwards_makeLastQuery)

lemma makeLastQuery_destroyed:
  "status (makeLastQuery e s p lim dbg ids st) = Destroyed err \<Longrightarrow> status st = Open \<Longrightarrow>
   \<exists>c. fault e c = Some err"
  by (auto simp: makeLastQuery_def execute_GET_LAST_N_MESSAGES_def destroy_def end_stream_def
      split: sum.splits option.splits)

lemma requestLast_destroyed:
  assumes "status (stream (requestLast e s p limit)) = Destroyed err"
  shows "\<exists>c. fault e c = Some err"
proof (cases e s p limit rule: requestLast_cases)
  case (ended cs)
  with assms show ?thesis by (simp add: end_stream_def)
next
  case (destroyed cs err' c)
  with assms show ?thesis by (auto simp: destroy_def)
next
  case (last_query cs ids dbg)
  with assms show ?thesis
    using makeLastQuery_destroyed [where st = createResultStream]
    by (auto simp: createResultStream_def)
qed

section \<open>The queries of requestRange, fetchRange and requestFrom\<close>

lemma add_filters_cases:
  "add_filters publisherId msgChainId q =
     q @ (case publisherId of None \<Rightarrow> [] | Some pb \<Rightarrow> if pb = [] then [] else [PublisherIdEq pb])
       @ (case msgChainId of None \<Rightarrow> [] | Some ch \<Rightarrow> if ch = [] then [] else [MsgChainIdEq ch])"
  by (simp add: add_filters_def truthy_def Let_def split: option.splits)

lemma fetchRange_calls_nonempty:
  "calls (fetchRange e s p ft fs tt tseq pub chain) \<noteq> [] \<and>
   hd (calls (fetchRange e s p ft fs tt tseq pub chain)) = GetBucketsByTimestamp s p ft tt"
  by (simp add: fetchRange_def Let_def split: sum.splits)

lemma fetchRange_calls:
  assumes "getBucketsByTimestamp e s p ft tt = Inr buckets" and "buckets \<noteq> []"
  shows "calls (fetchRange e s p ft fs tt tseq pub chain) =
           GetBucketsByTimestamp s p ft tt #
           map Stream_SELECT_payload
             (map (add_filters pub chain) (range_queries s p (bucketsToIds buckets) ft fs tt tseq))"
  using assms by (simp add: fetchRange_def Let_def)

text \<open>
  C2. \<open>requestRange\<close> throws exactly when one of \<open>publisherId\<close> and \<open>msgChainId\<close> is
  \<open>undefined\<close> and the other is not; the error is thrown before any backend call. In
  every other case it returns the stream of \<open>fetchRange\<close>, whose first call is the
  bucket lookup.
\<close>

theorem requestRange_invalid_iff:
  "((\<exists>err. requestRange e streamId part fromTimestamp fromSequenceNo toTimestamp toSequenceNo
             publisherId msgChainId = Inl err)
      = ((publisherId = None) \<noteq> (msgChainId = None)))
   \<and> ((publisherId = None) \<noteq> (msgChainId = None) \<longrightarrow>
        requestRange e streamId part fromTimestamp fromSequenceNo toTimestamp toSequenceNo
          publisherId msgChainId = Inl (Error ''Invalid combination of requestFrom arguments'')
        \<and> calls_issued (requestRange e streamId part fromTimestamp fromSequenceNo toTimestamp
             toSequenceNo publisherId msgChainId) = [])
   \<and> ((publisherId = None) = (msgChainId = None) \<longrightarrow>
        requestRange e streamId part fromTimestamp fromSequenceNo toTimestamp toSequenceNo
          publisherId msgChainId =
          Inr (fetchRange e streamId part fromTimestamp fromSequenceNo toTimestamp toSequenceNo
                 publisherId msgChainId)
        \<and> calls_issued (requestRange e streamId part fromTimestamp fromSequenceNo toTimestamp
             toSequenceNo publisherId msgChainId) \<noteq> []
        \<and> hd (calls_issued (requestRange e streamId part fromTimestamp fromSequenceNo toTimestamp
             toSequenceNo publisherId msgChainId)) =
            GetBucketsByTimestamp streamId part fromTimestamp toTimestamp)"
proof (cases "(publisherId = None) = (msgChainId = None)")
  case True
  then have "requestRange e streamId part fromTimestamp fromSequenceNo toTimestamp toSequenceNo
          publisherId msgChainId =
          Inr (fetchRange e streamId part fromTimestamp fromSequenceNo toTimestamp toSequenceNo
                 publisherId msgChainId)"
    by (auto simp: requestRange_def)
  with True show ?thesis
    using fetchRange_calls_nonempty [of e streamId part fromTimestamp fromSequenceNo toTimestamp
        toSequenceNo publisherId msgChainId]
    by (simp add: calls_issued_def)
next
  case False
  then have "requestRange e streamId part fromTimestamp fromSequenceNo toTimestamp toSequenceNo
          publisherId msgChainId = Inl (Error ''Invalid combination of requestFrom arguments'')"
    by (auto simp: requestRange_def)
  with False show ?thesis
    by (simp add: calls_issued_def)
qed

theorem requestRange_invalid_iff_witness:
  "requestRange example_env ''s1'' 0 100 0 103 5 (Some ''p1'') None =
     Inl (Error ''Invalid combination of requestFrom arguments'')
   \<and> requestRange example_env ''s1'' 0 100 0 103 5 None (Some ''c1'') =
     Inl (Error ''Invalid combination of requestFrom arguments'')
   \<and> calls_issued (requestRange example_env ''s1'' 0 100 0 103 5 (Some ''p1'') None) = []
   \<and> hd (calls_issued (requestRange example_env ''s1'' 0 100 0 103 5 (Some ''p1'') (Some ''c1'')))
       = GetBucketsByTimestamp ''s1'' 0 100 103
   \<and> hd (calls_issued (requestRange example_env ''s1'' 0 100 0 103 5 None None))
       = GetBucketsByTimestamp ''s1'' 0 100 103"
  using requestRange_invalid_iff [of example_env "''s1''" 0 100 0 103 5 "Some ''p1''" None]
    requestRange_invalid_iff [of example_env "''s1''" 0 100 0 103 5 None "Some ''c1''"]
    requestRange_invalid_iff [of example_env "''s1''" 0 100 0 103 5 "Some ''p1''" "Some ''c1''"]
    requestRange_invalid_iff [of example_env "''s1''" 0 100 0 103 5 None None]
  by auto

text \<open>
  C3. With a non-empty set of candidate buckets, \<open>fetchRange\<close> issues, after the bucket
  lookup, one query \<open>ts >= fromTimestamp AND ts <= toTimestamp\<close> when \<open>fromSequenceNo\<close> is 0
  and \<open>toSequenceNo\<close> is 2147483647, and otherwise the three queries
  \<open>ts = fromTimestamp AND sequence_no >= fromSequenceNo\<close>,
  \<open>ts > fromTimestamp AND ts < toTimestamp\<close> and
  \<open>ts = toTimestamp AND sequence_no <= toSequenceNo\<close>. Every query selects the stream, the
  partition and the candidate bucket ids, and ends with the publisher filter for a
  \<open>publisherId\<close> that is a non-empty string and with the chain filter for a
  \<open>msgChainId\<close> that is a non-empty string; one that is \<open>undefined\<close> or the empty string
  adds no filter. A valid call of \<open>requestRange\<close> issues the same calls.
\<close>

theorem fetchRange_physical_queries:
  assumes "getBucketsByTimestamp e streamId part fromTimestamp toTimestamp = Inr buckets"
    and "buckets \<noteq> []"
  shows
  "calls (fetchRange e streamId part fromTimestamp fromSequenceNo toTimestamp toSequenceNo
            publisherId msgChainId) =
     GetBucketsByTimestamp streamId part fromTimestamp toTimestamp #
     map (\<lambda>w. Stream_SELECT_payload
                ([StreamIdEq streamId, PartitionEq part, BucketIdIn (map bk_id buckets)] @ w @
                 (case publisherId of None \<Rightarrow> []
                    | Some pb \<Rightarrow> if pb = [] then [] else [PublisherIdEq pb]) @
                 (case msgChainId of None \<Rightarrow> []
                    | Some ch \<Rightarrow> if ch = [] then [] else [MsgChainIdEq ch])))
       (if fromSequenceNo = 0 \<and> toSequenceNo = 2147483647
        then [[TsGe fromTimestamp, TsLe toTimestamp]]
        else [[TsEq fromTimestamp, SequenceNoGe fromSequenceNo],
              [TsGt fromTimestamp, TsLt toTimestamp],
              [TsEq toTimestamp, SequenceNoLe toSequenceNo]])
   \<and> ((publisherId = None) = (msgChainId = None) \<longrightarrow>
        calls_issued (requestRange e streamId part fromTimestamp fromSequenceNo toTimestamp
                        toSequenceNo publisherId msgChainId) =
        calls (fetchRange e streamId part fromTimestamp fromSequenceNo toTimestamp toSequenceNo
                 publisherId msgChainId))"
proof -
  have "(publisherId = None) = (msgChainId = None) \<longrightarrow>
        calls_issued (requestRange e streamId part fromTimestamp fromSequenceNo toTimestamp
                        toSequenceNo publisherId msgChainId) =
        calls (fetchRange e streamId part fromTimestamp fromSequenceNo toTimestamp toSequenceNo
                 publisherId msgChainId)"
    by (auto simp: requestRange_def calls_issued_def)
  moreover have "calls (fetchRange e streamId part fromTimestamp fromSequenceNo toTimestamp
            toSequenceNo publisherId msgChainId) =
     GetBucketsByTimestamp streamId part fromTimestamp toTimestamp #
     map (\<lambda>w. Stream_SELECT_payload
                ([StreamIdEq streamId, PartitionEq part, BucketIdIn (map bk_id buckets)] @ w @
                 (case publisherId of None \<Rightarrow> []
                    | Some pb \<Rightarrow> if pb = [] then [] else [PublisherIdEq pb]) @
                 (case msgChainId of None \<Rightarrow> []
                    | Some ch \<Rightarrow> if ch = [] then [] else [MsgChainIdEq ch])))
       (if fromSequenceNo = 0 \<and> toSequenceNo = 2147483647
        then [[TsGe fromTimestamp, TsLe toTimestamp]]
        else [[TsEq fromTimestamp, SequenceNoGe fromSequenceNo],
              [TsGt fromTimestamp, TsLt toTimestamp],
              [TsEq toTimestamp, SequenceNoLe toSequenceNo]])"
    unfolding fetchRange_calls [OF assms]
    by (simp add: range_queries_def add_filters_cases bucketsToIds_def
        MIN_SEQUENCE_NUMBER_VALUE_def MAX_SEQUENCE_NUMBER_VALUE_def)
  ultimately show ?thesis by blast
qed

theorem fetchRange_physical_queries_witness:
  "calls (fetchRange example_env ''s1'' 0 100 0 103 2147483647 None None) =
     [GetBucketsByTimestamp ''s1'' 0 100 103,
      Stream_SELECT_payload [StreamIdEq ''s1'', PartitionEq 0, BucketIdIn [''A'', ''B''],
                             TsGe 100, TsLe 103]]
   \<and> calls_issued (requestRange example_env ''s1'' 0 100 1 103 5 (Some ''p1'') (Some ''c1'')) =
     [GetBucketsByTimestamp ''s1'' 0 100 103,
      Stream_SELECT_payload [StreamIdEq ''s1'', PartitionEq 0, BucketIdIn [''A'', ''B''],
                             TsEq 100, SequenceNoGe 1, PublisherIdEq ''p1'', MsgChainIdEq ''c1''],
      Stream_SELECT_payload [StreamIdEq ''s1'', PartitionEq 0, BucketIdIn [''A'', ''B''],
                             TsGt 100, TsLt 103, PublisherIdEq ''p1'', MsgChainIdEq ''c1''],
      Stream_SELECT_payload [StreamIdEq ''s1'', PartitionEq 0, BucketIdIn [''A'', ''B''],
                             TsEq 103, SequenceNoLe 5, PublisherIdEq ''p1'', MsgChainIdEq ''c1'']]"
proof -
  have B: "getBucketsByTimestamp example_env ''s1'' 0 100 103 = Inr (rev example_buckets)"
    "rev example_buckets \<noteq> []"
    by (simp_all add: example_env_def example_buckets_def)
  show ?thesis
    using fetchRange_physical_queries [OF B, of 0 2147483647 None None]
      fetchRange_physical_queries [OF B, of 1 5 "Some ''p1''" "Some ''c1''"]
    by (simp add: example_buckets_def)
qed

text \<open>
  With the empty string as \<open>publisherId\<close> and the chain \<open>c1\<close>, \<open>requestRange\<close> accepts the
  request, and none of its three queries has a publisher filter.
\<close>

theorem fetchRange_empty_publisher_counterexample:
  "requestRange example_env ''s1'' 0 100 1 103 5 (Some []) (Some ''c1'') =
     Inr (fetchRange example_env ''s1'' 0 100 1 103 5 (Some []) (Some ''c1''))
   \<and> calls (fetchRange example_env ''s1'' 0 100 1 103 5 (Some []) (Some ''c1'')) =
     [GetBucketsByTimestamp ''s1'' 0 100 103,
      Stream_SELECT_payload [StreamIdEq ''s1'', PartitionEq 0, BucketIdIn [''A'', ''B''],
                             TsEq 100, SequenceNoGe 1, MsgChainIdEq ''c1''],
      Stream_SELECT_payload [StreamIdEq ''s1'', PartitionEq 0, BucketIdIn [''A'', ''B''],
                             TsGt 100, TsLt 103, MsgChainIdEq ''c1''],
      Stream_SELECT_payload [StreamIdEq ''s1'', PartitionEq 0, BucketIdIn [''A'', ''B''],
                             TsEq 103, SequenceNoLe 5, MsgChainIdEq ''c1'']]"
proof -
  have 1: "requestRange example_env ''s1'' 0 100 1 103 5 (Some []) (Some ''c1'') =
     Inr (fetchRange example_env ''s1'' 0 100 1 103 5 (Some []) (Some ''c1''))"
    by (simp add: requestRange_def)
  have 2: "calls (fetchRange example_env ''s1'' 0 100 1 103 5 (Some []) (Some ''c1'')) =
     [GetBucketsByTimestamp ''s1'' 0 100 103,
      Stream_SELECT_payload [StreamIdEq ''s1'', PartitionEq 0, BucketIdIn [''A'', ''B''],
                             TsEq 100, SequenceNoGe 1, MsgChainIdEq ''c1''],
      Stream_SELECT_payload [StreamIdEq ''s1'', PartitionEq 0, BucketIdIn [''A'', ''B''],
                             TsGt 100, TsLt 103, MsgChainIdEq ''c1''],
      Stream_SELECT_payload [StreamIdEq ''s1'', PartitionEq 0, BucketIdIn [''A'', ''B''],
                             TsEq 103, SequenceNoLe 5, MsgChainIdEq ''c1'']]"
    by code_simp
  from 1 2 show ?thesis by blast
qed

text \<open>
  C7. \<open>requestFrom\<close> is \<open>fetchRange\<close> with \<open>toTimestamp\<close> 8640000000000000,
  \<open>toSequenceNo\<close> 2147483647 and no \<open>msgChainId\<close>; without a \<open>publisherId\<close> it is what
  \<open>requestRange\<close> returns for that upper end.
\<close>

theorem requestFrom_range_to_maximum:
  "requestFrom e streamId part fromTimestamp fromSequenceNo publisherId =
     fetchRange e streamId part fromTimestamp fromSequenceNo 8640000000000000 2147483647
       publisherId None
   \<and> requestRange e streamId part fromTimestamp fromSequenceNo 8640000000000000 2147483647
        None None = Inr (requestFrom e streamId part fromTimestamp fromSequenceNo None)"
  by (simp add: requestFrom_def requestRange_def MAX_TIMESTAMP_VALUE_def
      MAX_SEQUENCE_NUMBER_VALUE_def)

theorem requestFrom_range_to_maximum_witness:
  "requestFrom example_env ''s1'' 0 102 0 None =
     fetchRange example_env ''s1'' 0 102 0 8640000000000000 2147483647 None None
   \<and> pushed (stream (requestFrom example_env ''s1'' 0 102 0 None)) = [''m103'']
   \<and> calls (requestFrom example_env ''s1'' 0 102 0 None) =
       [GetBucketsByTimestamp ''s1'' 0 102 8640000000000000,
        Stream_SELECT_payload [StreamIdEq ''s1'', PartitionEq 0, BucketIdIn [''A'', ''B''],
                               TsGe 102, TsLe 8640000000000000]]"
proof -
  have 1: "pushed (stream (fetchRange example_env ''s1'' 0 102 0 8640000000000000 2147483647
                      None None)) = [''m103'']"
    by code_simp
  have 2: "calls (fetchRange example_env ''s1'' 0 102 0 8640000000000000 2147483647 None None) =
       [GetBucketsByTimestamp ''s1'' 0 102 8640000000000000,
        Stream_SELECT_payload [StreamIdEq ''s1'', PartitionEq 0, BucketIdIn [''A'', ''B''],
                               TsGe 102, TsLe 8640000000000000]]"
    by code_simp
  show ?thesis
    using requestFrom_range_to_maximum [of example_env "''s1''" 0 102 0 None] 1 2
    by simp
qed




section \<open>The bucket scan of requestLast\<close>

lemma Long_low_small: "0 \<le> n \<Longrightarrow> n < 2147483648 \<Longrightarrow> Long_low n = n"
  by (simp add: Long_low_def)

lemma execute_COUNT_MESSAGES_no_fault:
  "fault e = (\<lambda>c. None) \<Longrightarrow>
   execute_COUNT_MESSAGES e s p b = Inr (count_messages e s p b)"
  by (simp add: execute_COUNT_MESSAGES_def)

lemma select_GET_BUCKETS_rows:
  "select_GET_BUCKETS e s p = map bk_id (bucket_rows_of e s p)"
  by (simp add: select_GET_BUCKETS_def bucket_rows_of_def)

lemma eachRow_pages_step:
  assumes "fault e = (\<lambda>c. None)" and "b \<noteq> []"
  shows "eachRow_pages e s p lim n [b] rest v =
     (let v2 = v\<lparr>sv_bucketId := Some b, sv_bucketIds := sv_bucketIds v @ [b],
                  sv_total := sv_total v + Long_low (count_messages e s p b)\<rparr>
      in case rest of
           [] \<Rightarrow> ([EachRow_GET_BUCKETS s p n, Execute_COUNT_MESSAGES s p b],
                  MakeLastQuery (sv_bucketIds v2))
         | nxt # rest' \<Rightarrow>
             if sv_total v2 < lim \<and> sv_total v2 < MAX_RESEND_LAST
             then (case eachRow_pages e s p lim (Suc n) nxt rest' v2 of
                     (cs, fin) \<Rightarrow>
                       (EachRow_GET_BUCKETS s p n # Execute_COUNT_MESSAGES s p b # cs, fin))
             else ([EachRow_GET_BUCKETS s p n, Execute_COUNT_MESSAGES s p b],
                   MakeLastQuery (sv_bucketIds v2)))"
  using assms
  by (subst eachRow_pages.simps)
     (simp add: execute_COUNT_MESSAGES_no_fault row_callback_def truthy_def Let_def
        split: list.splits)

text \<open>
  An empty page that ends the listing: \<open>bucketId\<close> still holds the last bucket, which is
  counted once more.
\<close>

lemma eachRow_pages_empty_last:
  assumes "fault e = (\<lambda>c. None)" and "sv_bucketId v = Some b" and "b \<noteq> []"
  shows "eachRow_pages e s p lim n [] [] v =
           ([EachRow_GET_BUCKETS s p n, Execute_COUNT_MESSAGES s p b],
            MakeLastQuery (sv_bucketIds v))"
  using assms
  by (subst eachRow_pages.simps)
     (simp add: execute_COUNT_MESSAGES_no_fault truthy_def Let_def)

lemma eachRow_pages_scan:
  assumes "fault e = (\<lambda>c. None)" and "b \<noteq> []" and "\<forall>x \<in> set bs. x \<noteq> []"
  shows "eachRow_pages e s p lim n [b] (map (\<lambda>x. [x]) bs @ (if el then [[]] else [])) v =
           (scan_calls s p n
              (accumulate_buckets (\<lambda>b. Long_low (count_messages e s p b)) lim (sv_total v) (b # bs)) @
            (if el \<and>
                accumulate_buckets (\<lambda>b. Long_low (count_messages e s p b)) lim (sv_total v) (b # bs)
                  = b # bs \<and>
                sv_total v + sum_list (map (\<lambda>b. Long_low (count_messages e s p b)) (b # bs)) < lim \<and>
                sv_total v + sum_list (map (\<lambda>b. Long_low (count_messages e s p b)) (b # bs))
                  < MAX_RESEND_LAST
             then [EachRow_GET_BUCKETS s p (n + length (b # bs)),
                   Execute_COUNT_MESSAGES s p (last (b # bs))]
             else []),
            MakeLastQuery (sv_bucketIds v @
              accumulate_buckets (\<lambda>b. Long_low (count_messages e s p b)) lim (sv_total v) (b # bs)))"
  using assms(2,3)
proof (induction bs arbitrary: b n v)
  case Nil
  let ?cnt = "\<lambda>b. Long_low (count_messages e s p b)"
  let ?v2 = "v\<lparr>sv_bucketId := Some b, sv_bucketIds := sv_bucketIds v @ [b],
               sv_total := sv_total v + ?cnt b\<rparr>"
  have E: "eachRow_pages e s p lim (Suc n) [] [] ?v2 =
             ([EachRow_GET_BUCKETS s p (Suc n), Execute_COUNT_MESSAGES s p b],
              MakeLastQuery (sv_bucketIds ?v2))"
    using Nil.prems(1) by (intro eachRow_pages_empty_last [OF assms(1)]) simp_all
  show ?case
  proof (cases el)
    case False
    with Nil.prems(1) show ?thesis
      by (simp add: eachRow_pages_step [OF assms(1)] Let_def)
  next
    case True
    with Nil.prems(1) show ?thesis
      by (auto simp add: eachRow_pages_step [OF assms(1)] Let_def E)
  qed
next
  case (Cons b' bs)
  let ?cnt = "\<lambda>b. Long_low (count_messages e s p b)"
  let ?v2 = "v\<lparr>sv_bucketId := Some b, sv_bucketIds := sv_bucketIds v @ [b],
               sv_total := sv_total v + ?cnt b\<rparr>"
  let ?acc' = "accumulate_buckets ?cnt lim (sv_total v + ?cnt b) (b' # bs)"
  let ?extra' = "if el \<and> ?acc' = b' # bs \<and>
                    sv_total v + ?cnt b + sum_list (map ?cnt (b' # bs)) < lim \<and>
                    sv_total v + ?cnt b + sum_list (map ?cnt (b' # bs)) < MAX_RESEND_LAST
                 then [EachRow_GET_BUCKETS s p (Suc n + length (b' # bs)),
                       Execute_COUNT_MESSAGES s p (last (b' # bs))]
                 else []"
  have IH: "eachRow_pages e s p lim (Suc n) [b'] (map (\<lambda>x. [x]) bs @ (if el then [[]] else [])) ?v2 =
           (scan_calls s p (Suc n) ?acc' @ ?extra',
            MakeLastQuery ((sv_bucketIds v @ [b]) @ ?acc'))"
    using Cons.IH [of b' "Suc n" ?v2] Cons.prems by simp
  show ?case
  proof (cases "sv_total v + ?cnt b < lim \<and> sv_total v + ?cnt b < MAX_RESEND_LAST")
    case True
    then have acc: "accumulate_buckets ?cnt lim (sv_total v) (b # b' # bs) = b # ?acc'"
      by (subst accumulate_buckets.simps) simp
    have sum: "sv_total v + sum_list (map ?cnt (b # b' # bs)) =
               sv_total v + ?cnt b + sum_list (map ?cnt (b' # bs))"
      by simp
    show ?thesis
      unfolding acc sum
      using True Cons.prems(1)
      by (simp add: eachRow_pages_step [OF assms(1)] Let_def IH del: accumulate_buckets.simps)
  next
    case False
    then have acc: "accumulate_buckets ?cnt lim (sv_total v) (b # b' # bs) = [b]"
      by (subst accumulate_buckets.simps) simp
    show ?thesis
      unfolding acc
      using False Cons.prems(1)
      by (auto simp add: eachRow_pages_step [OF assms(1)] Let_def simp del: accumulate_buckets.simps)
  qed
qed

lemma accumulate_buckets_prefix:
  "ids \<noteq> [] \<Longrightarrow>
   accumulate_buckets cnt lim t ids \<noteq> [] \<and>
   accumulate_buckets cnt lim t ids = take (length (accumulate_buckets cnt lim t ids)) ids"
  by (induction cnt lim t ids rule: accumulate_buckets.induct) auto

lemma accumulate_buckets_stops:
  "length (accumulate_buckets cnt lim t ids) < length ids \<Longrightarrow>
   \<not> (t + sum_list (map cnt (accumulate_buckets cnt lim t ids)) < lim \<and>
      t + sum_list (map cnt (accumulate_buckets cnt lim t ids)) < MAX_RESEND_LAST)"
  by (induction cnt lim t ids rule: accumulate_buckets.induct)
     (auto simp: add.assoc split: if_splits)

lemma accumulate_buckets_continues:
  "0 < j \<Longrightarrow> j < length (accumulate_buckets cnt lim t ids) \<Longrightarrow>
   t + sum_list (map cnt (take j ids)) < lim \<and>
   t + sum_list (map cnt (take j ids)) < MAX_RESEND_LAST"
proof (induction cnt lim t ids arbitrary: j rule: accumulate_buckets.induct)
  case (1 cnt limit running)
  then show ?case by simp
next
  case (2 cnt limit running b bs)
  show ?case
  proof (cases "bs = [] \<or> \<not> (running + cnt b < limit \<and> running + cnt b < MAX_RESEND_LAST)")
    case True
    with "2.prems" show ?thesis by simp
  next
    case False
    from "2.prems" obtain j' where j: "j = Suc j'" by (cases j) auto
    show ?thesis
    proof (cases j')
      case 0
      with False j show ?thesis by simp
    next
      case (Suc k)
      with "2.IH" [of j'] False "2.prems" j show ?thesis
        by (simp add: add.assoc)
    qed
  qed
qed

lemma requestLast_no_buckets:
  assumes "fault e = (\<lambda>c. None)" and "select_GET_BUCKETS e s p = []"
  shows "requestLast e s p limit =
           \<lparr>calls = [EachRow_GET_BUCKETS s p 0], stream = end_stream createResultStream\<rparr>"
  using assms
  by (simp add: requestLast_def pages_fetchSize_1_def Let_def eachRow_pages.simps truthy_def)

text \<open>
  \<open>requestLast\<close> on a listing that is not empty, when the backend answers: the calls of
  the scan, the count of the last bucket once more when the listing ends with an empty
  page that the scan reaches, and the final query, whose result set is written to the
  stream in reverse.
\<close>

lemma requestLast_no_fault:
  fixes e :: "'m env"
  assumes "fault e = (\<lambda>c. None)"
    and "select_GET_BUCKETS e s p = ids"
    and "ids \<noteq> []"
    and "\<forall>b \<in> set ids. b \<noteq> []"
    and "acc = accumulate_buckets (\<lambda>b. Long_low (count_messages e s p b))
                 (min limit MAX_RESEND_LAST) 0 ids"
  shows "calls (requestLast e s p limit) =
           scan_calls s p 0 acc @
           (if empty_last_page e \<and> acc = ids \<and>
               sum_list (map (\<lambda>b. Long_low (count_messages e s p b)) ids)
                 < min limit MAX_RESEND_LAST \<and>
               sum_list (map (\<lambda>b. Long_low (count_messages e s p b)) ids) < MAX_RESEND_LAST
            then [EachRow_GET_BUCKETS s p (length ids), Execute_COUNT_MESSAGES s p (last ids)]
            else []) @
           [Execute_GET_LAST_N_MESSAGES s p acc (min limit MAX_RESEND_LAST)]"
    and "written (stream (requestLast e s p limit)) =
           rev (map sd_payload (last_rows e s p acc (min limit MAX_RESEND_LAST)))"
    and "status (stream (requestLast e s p limit)) = Ended"
proof -
  define lim where "lim = min limit MAX_RESEND_LAST"
  define extra where "extra =
           (if empty_last_page e \<and> acc = ids \<and>
               sum_list (map (\<lambda>b. Long_low (count_messages e s p b)) ids) < lim \<and>
               sum_list (map (\<lambda>b. Long_low (count_messages e s p b)) ids) < MAX_RESEND_LAST
            then [EachRow_GET_BUCKETS s p (length ids), Execute_COUNT_MESSAGES s p (last ids)]
            else [])"
  obtain b bs where ids: "ids = b # bs"
    using assms(3) by (cases ids) auto
  have scan: "eachRow_pages e s p lim 0 [b]
                (map (\<lambda>x. [x]) bs @ (if empty_last_page e then [[]] else []))
                \<lparr>sv_bucketId = None, sv_bucketIds = [], sv_total = 0\<rparr> =
              (scan_calls s p 0 acc @ extra, MakeLastQuery acc)"
    using eachRow_pages_scan [of e b bs s p lim 0 "empty_last_page e"
        "\<lparr>sv_bucketId = None, sv_bucketIds = [], sv_total = 0\<rparr>"] assms(1,4,5)
    by (simp add: ids lim_def extra_def del: accumulate_buckets.simps)
  have pages: "pages_fetchSize_1 (empty_last_page e) (select_GET_BUCKETS e s p) =
                 [b] # (map (\<lambda>x. [x]) bs @ (if empty_last_page e then [[]] else []))"
    by (simp add: pages_fetchSize_1_def assms(2) ids)
  have R: "requestLast e s p limit =
      \<lparr>calls = (scan_calls s p 0 acc @ extra) @ [Execute_GET_LAST_N_MESSAGES s p acc lim],
       stream = makeLastQuery e s p lim
          \<lparr>di_streamId = s, di_partition = Some p, di_limit = Some lim,
           di_fromTimestamp = None, di_toTimestamp = None, di_fromSequenceNo = None,
           di_toSequenceNo = None, di_publisherId = None, di_msgChainId = None\<rparr>
          acc createResultStream\<rparr>"
    unfolding requestLast_def clamp_limit Let_def pages lim_def [symmetric]
    by (simp add: scan)
  show "calls (requestLast e s p limit) =
           scan_calls s p 0 acc @
           (if empty_last_page e \<and> acc = ids \<and>
               sum_list (map (\<lambda>b. Long_low (count_messages e s p b)) ids)
                 < min limit MAX_RESEND_LAST \<and>
               sum_list (map (\<lambda>b. Long_low (count_messages e s p b)) ids) < MAX_RESEND_LAST
            then [EachRow_GET_BUCKETS s p (length ids), Execute_COUNT_MESSAGES s p (last ids)]
            else []) @
           [Execute_GET_LAST_N_MESSAGES s p acc (min limit MAX_RESEND_LAST)]"
    by (simp add: R extra_def lim_def)
  show "written (stream (requestLast e s p limit)) =
           rev (map sd_payload (last_rows e s p acc (min limit MAX_RESEND_LAST)))"
    by (simp add: R makeLastQuery_def execute_GET_LAST_N_MESSAGES_def assms(1) end_stream_def
        write_rows_written createResultStream_def lim_def rev_map)
  show "status (stream (requestLast e s p limit)) = Ended"
    by (simp add: R makeLastQuery_def execute_GET_LAST_N_MESSAGES_def assms(1) end_stream_def)
qed

lemma newest_first_split:
  assumes "sorted_wrt (\<lambda>a b. bk_date_create b < bk_date_create a) rows"
  shows "(\<forall>b \<in> set (take k rows). \<forall>b' \<in> set (drop k rows).
            bk_date_create b' < bk_date_create b) \<and>
         sorted_wrt (\<lambda>a b. bk_date_create b < bk_date_create a) (take k rows)"
proof -
  from assms have "sorted_wrt (\<lambda>a b. bk_date_create b < bk_date_create a) (take k rows @ drop k rows)"
    by simp
  then show ?thesis
    unfolding sorted_wrt_append by blast
qed

text \<open>
  C4. When the bucket listing is not empty and the backend answers, \<open>requestLast\<close>
  requests the listing one page (one bucket) at a time in the order of the listing,
  counts the records of each bucket it reads (\<open>COUNT_MESSAGES\<close>, read through
  \<open>row.total.low\<close>) and adds the count to the running total. The buckets it reads are a
  non-empty prefix of the listing; it goes on to the next page exactly while the running
  total is below the clamped limit and below 10000 and a further page exists. When the
  listing is in descending order of creation, as the bucket table keeps it, the scan
  runs newest-first and every bucket read is newer than every bucket not read. It then
  issues one final query, \<open>GET_LAST_N_MESSAGES\<close>, on exactly the bucket ids read, with
  the clamped limit. When the driver reports a further page after the last bucket and
  the scan reaches it, that page is empty and the last bucket is counted once more
  before the final query; the bucket ids are the same.
\<close>

theorem requestLast_accumulates_buckets:
  fixes e :: "'m env"
  defines "cnt \<equiv> (\<lambda>e streamId part b. Long_low (count_messages e streamId part b))"
  assumes "fault e = (\<lambda>c. None)"
    and "bucket_rows_of e streamId part = rows"
    and "rows \<noteq> []"
    and "\<forall>b \<in> set rows. bk_id b \<noteq> []"
    and "sorted_wrt (\<lambda>a b. bk_date_create b < bk_date_create a) rows"
    and "acc = accumulate_buckets (cnt e streamId part) (min limit MAX_RESEND_LAST) 0 (map bk_id rows)"
  shows
    "calls (requestLast e streamId part limit) =
       scan_calls streamId part 0 acc @
       (if empty_last_page e \<and> acc = map bk_id rows \<and>
           sum_list (map (cnt e streamId part) acc) < min limit MAX_RESEND_LAST \<and>
           sum_list (map (cnt e streamId part) acc) < MAX_RESEND_LAST
        then [EachRow_GET_BUCKETS streamId part (length acc),
              Execute_COUNT_MESSAGES streamId part (last acc)]
        else []) @
       [Execute_GET_LAST_N_MESSAGES streamId part acc (min limit MAX_RESEND_LAST)]
     \<and> acc \<noteq> [] \<and> acc = map bk_id (take (length acc) rows)
     \<and> (\<forall>b \<in> set (take (length acc) rows). \<forall>b' \<in> set (drop (length acc) rows).
           bk_date_create b' < bk_date_create b)
     \<and> sorted_wrt (\<lambda>a b. bk_date_create b < bk_date_create a) (take (length acc) rows)
     \<and> (length acc < length rows \<longrightarrow>
          \<not> (sum_list (map (cnt e streamId part) acc) < min limit MAX_RESEND_LAST \<and>
             sum_list (map (cnt e streamId part) acc) < MAX_RESEND_LAST))
     \<and> (\<forall>j. 0 < j \<and> j < length acc \<longrightarrow>
          sum_list (map (cnt e streamId part) (take j (map bk_id rows))) < min limit MAX_RESEND_LAST \<and>
          sum_list (map (cnt e streamId part) (take j (map bk_id rows))) < MAX_RESEND_LAST)"
proof -
  define lim where "lim = min limit MAX_RESEND_LAST"
  define ids where "ids = map bk_id rows"
  have L: "select_GET_BUCKETS e streamId part = ids"
    by (simp add: select_GET_BUCKETS_rows assms(3) ids_def)
  have N: "ids \<noteq> []" "\<forall>b \<in> set ids. b \<noteq> []"
    using assms(4,5) by (auto simp: ids_def)
  have A: "acc = accumulate_buckets (\<lambda>b. Long_low (count_messages e streamId part b)) lim 0 ids"
    by (simp add: assms(7) cnt_def lim_def ids_def)
  have calls: "calls (requestLast e streamId part limit) =
       scan_calls streamId part 0 acc @
       (if empty_last_page e \<and> acc = ids \<and>
           sum_list (map (cnt e streamId part) acc) < lim \<and>
           sum_list (map (cnt e streamId part) acc) < MAX_RESEND_LAST
        then [EachRow_GET_BUCKETS streamId part (length acc),
              Execute_COUNT_MESSAGES streamId part (last acc)]
        else []) @
       [Execute_GET_LAST_N_MESSAGES streamId part acc lim]"
    using requestLast_no_fault(1) [OF assms(2) L N A [unfolded lim_def]]
    by (auto simp: cnt_def lim_def)
  have prefix: "acc \<noteq> [] \<and> acc = take (length acc) ids"
    using accumulate_buckets_prefix [OF N(1), of "cnt e streamId part" lim 0]
    by (simp add: A cnt_def)
  have stops: "length acc < length rows \<longrightarrow>
          \<not> (sum_list (map (cnt e streamId part) acc) < lim \<and>
             sum_list (map (cnt e streamId part) acc) < MAX_RESEND_LAST)"
    using accumulate_buckets_stops [of "cnt e streamId part" lim 0 ids]
    by (simp add: A cnt_def ids_def)
  have continues: "\<forall>j. 0 < j \<and> j < length acc \<longrightarrow>
          sum_list (map (cnt e streamId part) (take j ids)) < lim \<and>
          sum_list (map (cnt e streamId part) (take j ids)) < MAX_RESEND_LAST"
    using accumulate_buckets_continues [of _ "cnt e streamId part" lim 0 ids]
    by (simp add: A cnt_def)
  have taken: "acc = map bk_id (take (length acc) rows)"
    using prefix by (simp add: ids_def take_map)
  show ?thesis
    using calls prefix stops continues taken newest_first_split [OF assms(6), of "length acc"]
    by (simp add: lim_def ids_def)
qed

theorem requestLast_accumulates_buckets_witness:
  "bucket_rows_of example_env ''s1'' 0 = example_buckets
   \<and> map bk_id example_buckets = [''B'', ''A'']
   \<and> map bk_date_create example_buckets = [102, 100]
   \<and> count_messages example_env ''s1'' 0 ''B'' = 2
   \<and> count_messages example_env ''s1'' 0 ''A'' = 2
   \<and> calls (requestLast example_env ''s1'' 0 3) =
       [EachRow_GET_BUCKETS ''s1'' 0 0, Execute_COUNT_MESSAGES ''s1'' 0 ''B'',
        EachRow_GET_BUCKETS ''s1'' 0 1, Execute_COUNT_MESSAGES ''s1'' 0 ''A'',
        Execute_GET_LAST_N_MESSAGES ''s1'' 0 [''B'', ''A''] 3]
   \<and> calls (requestLast example_env ''s1'' 0 2) =
       [EachRow_GET_BUCKETS ''s1'' 0 0, Execute_COUNT_MESSAGES ''s1'' 0 ''B'',
        Execute_GET_LAST_N_MESSAGES ''s1'' 0 [''B''] 2]
   \<and> calls (requestLast (example_env\<lparr>empty_last_page := True\<rparr>) ''s1'' 0 5) =
       [EachRow_GET_BUCKETS ''s1'' 0 0, Execute_COUNT_MESSAGES ''s1'' 0 ''B'',
        EachRow_GET_BUCKETS ''s1'' 0 1, Execute_COUNT_MESSAGES ''s1'' 0 ''A'',
        EachRow_GET_BUCKETS ''s1'' 0 2, Execute_COUNT_MESSAGES ''s1'' 0 ''A'',
        Execute_GET_LAST_N_MESSAGES ''s1'' 0 [''B'', ''A''] 5]"
proof -
  let ?e' = "example_env\<lparr>empty_last_page := True\<rparr>"
  have F: "fault example_env = (\<lambda>c. None)" "fault ?e' = (\<lambda>c. None)"
    by (simp_all add: example_env_def)
  have L: "bucket_rows_of example_env ''s1'' 0 = example_buckets"
    "bucket_rows_of ?e' ''s1'' 0 = example_buckets"
    by (simp_all add: bucket_rows_of_def example_env_def example_buckets_def)
  have I: "map bk_id example_buckets = [''B'', ''A'']"
    and D: "map bk_date_create example_buckets = [102, 100]"
    by (simp_all add: example_buckets_def)
  have N: "example_buckets \<noteq> []" "\<forall>b \<in> set example_buckets. bk_id b \<noteq> []"
    "sorted_wrt (\<lambda>a b. bk_date_create b < bk_date_create a) example_buckets"
    by (simp_all add: example_buckets_def)
  have CB: "count_messages example_env ''s1'' 0 ''B'' = 2"
    "count_messages ?e' ''s1'' 0 ''B'' = 2"
    by (simp_all add: count_messages_def example_env_def example_rows_def)
  have CA: "count_messages example_env ''s1'' 0 ''A'' = 2"
    "count_messages ?e' ''s1'' 0 ''A'' = 2"
    by (simp_all add: count_messages_def example_env_def example_rows_def)
  have A3: "accumulate_buckets (\<lambda>b. Long_low (count_messages example_env ''s1'' 0 b))
              (min 3 MAX_RESEND_LAST) 0 (map bk_id example_buckets) = [''B'', ''A'']"
    by (simp add: I CA CB Long_low_def MAX_RESEND_LAST_def)
  have A2: "accumulate_buckets (\<lambda>b. Long_low (count_messages example_env ''s1'' 0 b))
              (min 2 MAX_RESEND_LAST) 0 (map bk_id example_buckets) = [''B'']"
    by (simp add: I CA CB Long_low_def MAX_RESEND_LAST_def)
  have A5: "accumulate_buckets (\<lambda>b. Long_low (count_messages ?e' ''s1'' 0 b))
              (min 5 MAX_RESEND_LAST) 0 (map bk_id example_buckets) = [''B'', ''A'']"
    by (simp add: I CA CB Long_low_def MAX_RESEND_LAST_def)
  have 3: "calls (requestLast example_env ''s1'' 0 3) =
       [EachRow_GET_BUCKETS ''s1'' 0 0, Execute_COUNT_MESSAGES ''s1'' 0 ''B'',
        EachRow_GET_BUCKETS ''s1'' 0 1, Execute_COUNT_MESSAGES ''s1'' 0 ''A'',
        Execute_GET_LAST_N_MESSAGES ''s1'' 0 [''B'', ''A''] 3]"
    using requestLast_accumulates_buckets [OF F(1) L(1) N A3 [symmetric], THEN conjunct1]
    by (simp add: MAX_RESEND_LAST_def example_env_def)
  have 2: "calls (requestLast example_env ''s1'' 0 2) =
       [EachRow_GET_BUCKETS ''s1'' 0 0, Execute_COUNT_MESSAGES ''s1'' 0 ''B'',
        Execute_GET_LAST_N_MESSAGES ''s1'' 0 [''B''] 2]"
    using requestLast_accumulates_buckets [OF F(1) L(1) N A2 [symmetric], THEN conjunct1]
    by (simp add: MAX_RESEND_LAST_def I)
  have 5: "calls (requestLast ?e' ''s1'' 0 5) =
       [EachRow_GET_BUCKETS ''s1'' 0 0, Execute_COUNT_MESSAGES ''s1'' 0 ''B'',
        EachRow_GET_BUCKETS ''s1'' 0 1, Execute_COUNT_MESSAGES ''s1'' 0 ''A'',
        EachRow_GET_BUCKETS ''s1'' 0 2, Execute_COUNT_MESSAGES ''s1'' 0 ''A'',
        Execute_GET_LAST_N_MESSAGES ''s1'' 0 [''B'', ''A''] 5]"
    using requestLast_accumulates_buckets [OF F(2) L(2) N A5 [symmetric], THEN conjunct1]
    by (simp add: MAX_RESEND_LAST_def I CA CB Long_low_def)
  from L(1) I D CB(1) CA(1) 3 2 5 show ?thesis by blast
qed

section \<open>Null payloads: what the read paths deliver\<close>

lemma merge2_later_rows:
  "merge2_later d dbg (map Rows rss) st = end_stream (write_rows d dbg st (concat rss))"
proof (induction rss arbitrary: st)
  case Nil
  show ?case by (simp add: write_rows_def)
next
  case (Cons rs rss)
  then show ?case by (simp add: write_rows_def)
qed

lemma pipeline_merge2_rows:
  "pipeline_merge2 d dbg (map Rows rss) st = end_stream (write_rows d dbg st (concat rss))"
proof -
  have "pipeline_merge2 d dbg (map Rows rss) st = merge2_later d dbg (map Rows rss) st"
    by (cases rss) (simp_all add: pipeline_merge2_def)
  then show ?thesis
    by (simp only: merge2_later_rows)
qed

lemma queryWithStreamingResults_no_fault:
  "fault e = (\<lambda>c. None) \<Longrightarrow> queryWithStreamingResults e q = Rows (select_payload e q)"
  by (simp add: queryWithStreamingResults_def)

lemma fetchRange_no_fault:
  fixes e :: "'m env"
  assumes "fault e = (\<lambda>c. None)"
    and "getBucketsByTimestamp e s p ft tt = Inr buckets"
    and "buckets \<noteq> []"
  shows "stream (fetchRange e s p ft fs tt tseq pub chain) =
           end_stream (write_rows (deserialize e)
             \<lparr>di_streamId = s, di_partition = Some p, di_limit = None,
              di_fromTimestamp = Some ft, di_toTimestamp = Some tt,
              di_fromSequenceNo = Some fs, di_toSequenceNo = Some tseq,
              di_publisherId = pub, di_msgChainId = chain\<rparr>
             createResultStream
             (concat (map (select_payload e)
                (map (add_filters pub chain)
                   (range_queries s p (bucketsToIds buckets) ft fs tt tseq)))))"
proof -
  have E: "map (queryWithStreamingResults e) qs = map Rows (map (select_payload e) qs)" for qs
    by (simp add: queryWithStreamingResults_no_fault [OF assms(1)])
  have "stream (fetchRange e s p ft fs tt tseq pub chain) =
          pipeline_merge2 (deserialize e)
             \<lparr>di_streamId = s, di_partition = Some p, di_limit = None,
              di_fromTimestamp = Some ft, di_toTimestamp = Some tt,
              di_fromSequenceNo = Some fs, di_toSequenceNo = Some tseq,
              di_publisherId = pub, di_msgChainId = chain\<rparr>
             (map (queryWithStreamingResults e)
                (map (add_filters pub chain)
                   (range_queries s p (bucketsToIds buckets) ft fs tt tseq)))
             createResultStream"
    using assms(2,3) by (simp add: fetchRange_def Let_def del: map_map)
  then show ?thesis
    by (simp only: E pipeline_merge2_rows)
qed

text \<open>
  C8. A row with a null payload only adds a log entry: \<open>transform\<close> pushes nothing,
  emits no \<open>'read'\<close> and leaves the status of the stream as it is. On both read paths
  (\<open>requestLast\<close>, and \<open>fetchRange\<close> behind \<open>requestFrom\<close> and \<open>requestRange\<close>) the
  messages pushed and the \<open>'read'\<close> notifications are exactly the deserialized non-null
  payloads of the rows written, in order, with one log entry per null payload; and a
  stream is destroyed only with an error of the backend or of the bucket manager.
  When the backend answers, the rows written are the rows of the queries: for
  \<open>fetchRange\<close> on a non-empty bucket list, the rows of its one or three queries, one
  query after the other; for \<open>requestLast\<close> on a non-empty listing, the rows of the
  final query in reverse. The stream is then ended, and what the consumer receives is
  the deserialized non-null payloads of those rows, in that order.
\<close>

theorem null_payload_rows_skipped:
  "transform d dbg st None =
     st\<lparr>written := written st @ [None], null_payload_log := null_payload_log st @ [dbg]\<rparr>
   \<and> pushed (write_rows d dbg st rows) = pushed st @ map d (non_null rows)
   \<and> read_events (write_rows d dbg st rows) = read_events st @ map d (non_null rows)
   \<and> status (write_rows d dbg st rows) = status st
   \<and> forwards_non_null (deserialize e) (stream (requestLast e streamId part limit))
   \<and> forwards_non_null (deserialize e)
        (stream (fetchRange e streamId part fromTimestamp fromSequenceNo toTimestamp toSequenceNo
                   publisherId msgChainId))
   \<and> (status (stream (requestLast e streamId part limit)) = Destroyed err
        \<longrightarrow> (\<exists>c. fault e c = Some err))
   \<and> (status (stream (fetchRange e streamId part fromTimestamp fromSequenceNo toTimestamp
                         toSequenceNo publisherId msgChainId)) = Destroyed err
        \<longrightarrow> (\<exists>c. fault e c = Some err)
            \<or> getBucketsByTimestamp e streamId part fromTimestamp toTimestamp = Inl err)
   \<and> (fault e = (\<lambda>c. None)
        \<and> getBucketsByTimestamp e streamId part fromTimestamp toTimestamp = Inr buckets
        \<and> buckets \<noteq> []
        \<longrightarrow> written (stream (fetchRange e streamId part fromTimestamp fromSequenceNo toTimestamp
                                 toSequenceNo publisherId msgChainId)) =
              concat (map (select_payload e)
                (map (add_filters publisherId msgChainId)
                   (range_queries streamId part (bucketsToIds buckets) fromTimestamp fromSequenceNo
                      toTimestamp toSequenceNo)))
            \<and> pushed (stream (fetchRange e streamId part fromTimestamp fromSequenceNo toTimestamp
                                 toSequenceNo publisherId msgChainId)) =
              map (deserialize e) (non_null (concat (map (select_payload e)
                (map (add_filters publisherId msgChainId)
                   (range_queries streamId part (bucketsToIds buckets) fromTimestamp fromSequenceNo
                      toTimestamp toSequenceNo)))))
            \<and> status (stream (fetchRange e streamId part fromTimestamp fromSequenceNo toTimestamp
                                 toSequenceNo publisherId msgChainId)) = Ended)
   \<and> (fault e = (\<lambda>c. None)
        \<and> select_GET_BUCKETS e streamId part = ids \<and> ids \<noteq> [] \<and> (\<forall>b \<in> set ids. b \<noteq> [])
        \<and> acc = accumulate_buckets (\<lambda>b. Long_low (count_messages e streamId part b))
                  (min limit MAX_RESEND_LAST) 0 ids
        \<longrightarrow> written (stream (requestLast e streamId part limit)) =
              rev (map sd_payload (last_rows e streamId part acc (min limit MAX_RESEND_LAST)))
            \<and> pushed (stream (requestLast e streamId part limit)) =
              map (deserialize e) (non_null
                (rev (map sd_payload (last_rows e streamId part acc (min limit MAX_RESEND_LAST)))))
            \<and> status (stream (requestLast e streamId part limit)) = Ended)"
proof -
  have T: "transform d dbg st None =
     st\<lparr>written := written st @ [None], null_payload_log := null_payload_log st @ [dbg]\<rparr>"
    by (simp add: transform_def parseRow_def)
  have FR: "forwards_non_null (deserialize e)
        (stream (fetchRange e streamId part fromTimestamp fromSequenceNo toTimestamp toSequenceNo
                   publisherId msgChainId))"
    by (rule fetchRange_forwards)
  have RL: "forwards_non_null (deserialize e) (stream (requestLast e streamId part limit))"
    by (rule requestLast_forwards)
  have W: "written (stream (fetchRange e streamId part fromTimestamp fromSequenceNo toTimestamp
                                 toSequenceNo publisherId msgChainId)) =
              concat (map (select_payload e)
                (map (add_filters publisherId msgChainId)
                   (range_queries streamId part (bucketsToIds buckets) fromTimestamp fromSequenceNo
                      toTimestamp toSequenceNo)))
          \<and> status (stream (fetchRange e streamId part fromTimestamp fromSequenceNo toTimestamp
                                 toSequenceNo publisherId msgChainId)) = Ended"
    if "fault e = (\<lambda>c. None)"
      and "getBucketsByTimestamp e streamId part fromTimestamp toTimestamp = Inr buckets"
      and "buckets \<noteq> []"
    using that
    by (simp add: fetchRange_no_fault write_rows_written end_stream_def createResultStream_def)
  have L: "written (stream (requestLast e streamId part limit)) =
              rev (map sd_payload (last_rows e streamId part acc (min limit MAX_RESEND_LAST)))
          \<and> status (stream (requestLast e streamId part limit)) = Ended"
    if "fault e = (\<lambda>c. None)" and "select_GET_BUCKETS e streamId part = ids" and "ids \<noteq> []"
      and "\<forall>b \<in> set ids. b \<noteq> []"
      and "acc = accumulate_buckets (\<lambda>b. Long_low (count_messages e streamId part b))
                  (min limit MAX_RESEND_LAST) 0 ids"
    using requestLast_no_fault(2,3) [OF that] by simp
  show ?thesis
    using requestLast_destroyed [of e streamId part limit err]
      fetchRange_destroyed [of e streamId part fromTimestamp fromSequenceNo toTimestamp
        toSequenceNo publisherId msgChainId err]
      T FR RL W L FR [unfolded forwards_non_null_def] RL [unfolded forwards_non_null_def]
    by (simp add: write_rows_pushed write_rows_read_events write_rows_status)
qed

lemma example_range_rows:
  "concat (map (select_payload example_env)
     (map (add_filters None None)
        (range_queries ''s1'' 0 (bucketsToIds (rev example_buckets)) 100 0 103 5))) =
   [Some ''m100'', Some ''m101'', None, Some ''m103'']"
  "length (range_queries ''s1'' 0 (bucketsToIds (rev example_buckets)) 100 0 103 5) = 3"
  "map (select_payload example_env)
     (range_queries ''s1'' 0 (bucketsToIds (rev example_buckets)) 100 0 103 5) =
   [[Some ''m100''], [Some ''m101'', None], [Some ''m103'']]"
  by code_simp+

lemma example_last_rows:
  "select_GET_BUCKETS example_env ''s1'' 0 = [''B'', ''A'']"
  "accumulate_buckets (\<lambda>b. Long_low (count_messages example_env ''s1'' 0 b))
     (min 3 MAX_RESEND_LAST) 0 [''B'', ''A''] = [''B'', ''A'']"
  "rev (map sd_payload (last_rows example_env ''s1'' 0 [''B'', ''A''] (min 3 MAX_RESEND_LAST))) =
   [Some ''m101'', None, Some ''m103'']"
  by code_simp+

theorem null_payload_rows_skipped_witness:
  "length (range_queries ''s1'' 0 (bucketsToIds (rev example_buckets)) 100 0 103 5) = 3
   \<and> map (select_payload example_env)
       (range_queries ''s1'' 0 (bucketsToIds (rev example_buckets)) 100 0 103 5) =
     [[Some ''m100''], [Some ''m101'', None], [Some ''m103'']]
   \<and> written (stream (fetchRange example_env ''s1'' 0 100 0 103 5 None None)) =
        [Some ''m100'', Some ''m101'', None, Some ''m103'']
   \<and> pushed (stream (fetchRange example_env ''s1'' 0 100 0 103 5 None None)) =
        [''m100'', ''m101'', ''m103'']
   \<and> status (stream (fetchRange example_env ''s1'' 0 100 0 103 5 None None)) = Ended
   \<and> forwards_non_null (\<lambda>pl. pl)
        (stream (fetchRange example_env ''s1'' 0 100 0 103 5 None None))
   \<and> written (stream (requestLast example_env ''s1'' 0 3)) = [Some ''m101'', None, Some ''m103'']
   \<and> pushed (stream (requestLast example_env ''s1'' 0 3)) = [''m101'', ''m103'']
   \<and> status (stream (requestLast example_env ''s1'' 0 3)) = Ended
   \<and> forwards_non_null (\<lambda>pl. pl) (stream (requestLast example_env ''s1'' 0 3))"
proof -
  have F: "fault example_env = (\<lambda>c. None)"
    and G: "getBucketsByTimestamp example_env ''s1'' 0 100 103 = Inr (rev example_buckets)"
    and N: "rev example_buckets \<noteq> []"
    and D: "deserialize example_env = (\<lambda>pl. pl)"
    by (simp_all add: example_env_def example_buckets_def)
  have I: "[''B'', ''A''] \<noteq> []" "\<forall>b \<in> set [''B'', ''A'']. b \<noteq> []"
    by simp_all
  note T = null_payload_rows_skipped [of "\<lambda>pl. pl" undefined createResultStream "[]" example_env
      "''s1''" 0 3 100 0 103 5 None None "Error []" "rev example_buckets" "[''B'', ''A'']"
      "[''B'', ''A'']"]
  from T F G N I example_range_rows example_last_rows D show ?thesis
    by (simp add: non_null_def)
qed

section \<open>The summary queries: fallbacks\<close>

lemma execute_no_fault:
  "fault e = (\<lambda>c. None) \<Longrightarrow> execute e c rows = Inr (first_page (default_fetchSize e) rows)"
  by (simp add: execute_def)

lemma first_page_short: "length rows \<le> 1 \<Longrightarrow> first_page n rows = rows"
  by (cases rows) (simp_all add: first_page_def)

lemma first_page_all: "n = 0 \<or> length rows \<le> n \<Longrightarrow> first_page n rows = rows"
  by (auto simp: first_page_def)

lemma foldl_plus_sum_list: "foldl (\<lambda>count row_size. count + row_size) (a :: int) xs = a + sum_list xs"
  by (induction xs arbitrary: a) simp_all

lemma int32_small: "- 2147483648 \<le> n \<Longrightarrow> n < 2147483648 \<Longrightarrow> int32 n = n"
  by (simp add: int32_def)

text \<open>
  Without buckets for the stream and partition, each of the four summary queries
  answers 0.
\<close>

lemma summary_queries_zero:
  assumes "fault e = (\<lambda>c. None)" and "bucket_rows_of e streamId part = []"
  shows "getFirstMessageTimestampInStream e streamId part = Inr 0"
    and "getLastMessageTimestampInStream e streamId part = Inr 0"
    and "getNumberOfMessagesInStream e streamId part = Inr 0"
    and "getTotalBytesInStream e streamId part = Inr 0"
  using assms
  by (simp_all add: getFirstMessageTimestampInStream_def getLastMessageTimestampInStream_def
      getNumberOfMessagesInStream_def getTotalBytesInStream_def execute_first_bucket_def
      execute_last_bucket_def execute_SUM_records_def execute_SUM_size_def execute_no_fault
      first_page_short int32_def)

text \<open>
  With a bucket that holds no row, the two timestamp queries answer 0.
\<close>

lemma timestamp_queries_zero_without_rows:
  assumes "fault e = (\<lambda>c. None)" and "db_stream_data e = []"
  shows "getFirstMessageTimestampInStream e streamId part = Inr 0"
    and "getLastMessageTimestampInStream e streamId part = Inr 0"
  using assms
  by (simp_all add: getFirstMessageTimestampInStream_def getLastMessageTimestampInStream_def
      execute_first_bucket_def execute_last_bucket_def execute_first_ts_def execute_last_ts_def
      execute_no_fault first_page_short data_rows_of_def Let_def)

text \<open>
  \<open>getTotalBytesInStream\<close>: a negative aggregate is replaced by the sum over the rows
  that the second \<open>execute\<close> returns, which are all rows when they fit its first page.
\<close>

lemma getTotalBytesInStream_fallback_page:
  assumes "fault e = (\<lambda>c. None)"
    and "int32 (sum_list (map bk_size (bucket_rows_of e streamId part))) < 0"
  shows "getTotalBytesInStream e streamId part =
           Inr (sum_list (first_page (default_fetchSize e)
                  (map bk_size (bucket_rows_of e streamId part))))"
  using assms
  by (simp add: getTotalBytesInStream_def execute_SUM_size_def execute_SELECT_size_def
      execute_no_fault first_page_short Let_def foldl_plus_sum_list)

lemma getTotalBytesInStream_fallback:
  assumes "fault e = (\<lambda>c. None)"
    and "int32 (sum_list (map bk_size (bucket_rows_of e streamId part))) < 0"
    and "default_fetchSize e = 0 \<or> length (bucket_rows_of e streamId part) \<le> default_fetchSize e"
  shows "getTotalBytesInStream e streamId part =
           Inr (sum_list (map bk_size (bucket_rows_of e streamId part)))"
  using assms(3)
  by (simp add: getTotalBytesInStream_fallback_page [OF assms(1,2)] first_page_all)

text \<open>
  \<open>getNumberOfMessagesInStream\<close> answers the aggregate as it is, negative or not.
\<close>

lemma getNumberOfMessagesInStream_aggregate:
  assumes "fault e = (\<lambda>c. None)"
  shows "getNumberOfMessagesInStream e streamId part =
           Inr (int32 (sum_list (map bk_records (bucket_rows_of e streamId part))))"
  using assms
  by (simp add: getNumberOfMessagesInStream_def execute_SUM_records_def execute_no_fault
      first_page_short)

text \<open>
  C5. Each of the four summary queries answers 0 without buckets
  (\<open>summary_queries_zero\<close>), and \<open>getTotalBytesInStream\<close> replaces a negative aggregate
  by the sum over the rows (\<open>getTotalBytesInStream_fallback\<close>).
  \<open>getNumberOfMessagesInStream\<close> has no row-by-row path: with two buckets of 1073741824
  records each, the 32-bit aggregate is -2147483648 and that is what it returns, where
  the records add up to 2147483648. For the same sizes \<open>getTotalBytesInStream\<close> returns
  2147483648.
\<close>

theorem getNumberOfMessagesInStream_overflow:
  "getNumberOfMessagesInStream overflow_env ''s1'' 0 = Inr (- 2147483648)
   \<and> sum_list (map bk_records (bucket_rows_of overflow_env ''s1'' 0)) = 2147483648
   \<and> getTotalBytesInStream overflow_env ''s1'' 0 = Inr 2147483648"
proof -
  have F: "fault overflow_env = (\<lambda>c. None)"
    by (simp add: overflow_env_def)
  have R: "sum_list (map bk_records (bucket_rows_of overflow_env ''s1'' 0)) = 2147483648"
    by (simp add: bucket_rows_of_def overflow_env_def)
  have S: "sum_list (map bk_size (bucket_rows_of overflow_env ''s1'' 0)) = 2147483648"
    by (simp add: bucket_rows_of_def overflow_env_def)
  have W: "int32 2147483648 = - 2147483648"
    by (simp add: int32_def)
  have N: "getNumberOfMessagesInStream overflow_env ''s1'' 0 = Inr (- 2147483648)"
    by (simp add: getNumberOfMessagesInStream_aggregate [OF F] R W)
  have P: "default_fetchSize overflow_env = 0 \<or>
           length (bucket_rows_of overflow_env ''s1'' 0) \<le> default_fetchSize overflow_env"
    by (simp add: bucket_rows_of_def overflow_env_def)
  have T: "getTotalBytesInStream overflow_env ''s1'' 0 = Inr 2147483648"
    using getTotalBytesInStream_fallback [OF F _ P] by (simp add: S W)
  from N R T show ?thesis by blast
qed

section \<open>store and close: parking, delivery and cancellation\<close>

lemma timeouts_registered_iff:
  "timeouts_registered st =
     (distinct (map fst (timeouts st)) \<and> distinct (map fst (pendingStores st)) \<and>
      (\<forall>(h, t) \<in> set (timeouts st).
          (tm_uuid t, h) \<in> set (pendingStores st) \<and> h < next_timeout st) \<and>
      (\<forall>(uuid, h) \<in> set (pendingStores st). uuid < next_uuid st))"
  by (auto simp: timeouts_registered_def list_all_iff)

lemma update_fresh: "k \<notin> fst ` set al \<Longrightarrow> AList.update k v al = al @ [(k, v)]"
  by (induction al) auto

lemma set_delete: "set (AList.delete k al) = {x \<in> set al. fst x \<noteq> k}"
  by (auto simp: AList.delete_eq)

lemma registered_cong:
  "timeouts st' = timeouts st \<Longrightarrow> pendingStores st' = pendingStores st \<Longrightarrow>
   next_timeout st' = next_timeout st \<Longrightarrow> next_uuid st' = next_uuid st \<Longrightarrow>
   timeouts_registered st' = timeouts_registered st"
  by (simp add: timeouts_registered_def)

lemma registered_constructor: "timeouts_registered (constructor bucket_lookup opts_given)"
  by (simp add: timeouts_registered_def constructor_def)

lemma store_body_found:
  assumes "truthy (bm_getBucketId st (getStreamId c m) (getStreamPartition c m) (getTimestamp c m))"
  shows "store_body c m p st =
     st\<lparr>bm_counters := incrementBucket (bm_counters st)
                          (the (bm_getBucketId st (getStreamId c m) (getStreamPartition c m)
                                  (getTimestamp c m)))
                          (byteLength (serialize c m)),
        collaborator_calls := collaborator_calls st @
           [IncrementBucket (the (bm_getBucketId st (getStreamId c m) (getStreamPartition c m)
                                    (getTimestamp c m)))
              (byteLength (serialize c m))],
        immediates := immediates st @
           [(the (bm_getBucketId st (getStreamId c m) (getStreamPartition c m) (getTimestamp c m)),
             m, p)]\<rparr>"
  using assms by (simp add: store_body_def Let_def)

lemma store_body_parked:
  assumes "\<not> truthy (bm_getBucketId st (getStreamId c m) (getStreamPartition c m) (getTimestamp c m))"
  shows "store_body c m p st =
     st\<lparr>next_uuid := Suc (next_uuid st),
        next_timeout := Suc (next_timeout st),
        timeouts := timeouts st @
           [(next_timeout st, \<lparr>tm_delay = get_property (retriesIntervalMilliseconds (opts st)),
                                tm_uuid = next_uuid st, tm_message = m, tm_promise = p\<rparr>)],
        pendingStores := AList.update (next_uuid st) (next_timeout st) (pendingStores st)\<rparr>"
  using assms by (simp add: store_body_def Let_def)

lemma registered_store_body:
  assumes "timeouts_registered st"
  shows "timeouts_registered (store_body c m p st)"
proof (cases "truthy (bm_getBucketId st (getStreamId c m) (getStreamPartition c m) (getTimestamp c m))")
  case True
  have "timeouts_registered (store_body c m p st) = timeouts_registered st"
    by (rule registered_cong) (simp_all add: store_body_found [OF True])
  with assms show ?thesis by simp
next
  case False
  from assms have D: "distinct (map fst (timeouts st))" "distinct (map fst (pendingStores st))"
    and T: "\<And>h t. (h, t) \<in> set (timeouts st) \<Longrightarrow>
              (tm_uuid t, h) \<in> set (pendingStores st) \<and> h < next_timeout st"
    and P: "\<And>uuid h. (uuid, h) \<in> set (pendingStores st) \<Longrightarrow> uuid < next_uuid st"
    by (auto simp: timeouts_registered_iff)
  have fresh_h: "next_timeout st \<notin> fst ` set (timeouts st)"
    using T by fastforce
  have fresh_u: "next_uuid st \<notin> fst ` set (pendingStores st)"
    using P by fastforce
  have upd: "AList.update (next_uuid st) (next_timeout st) (pendingStores st) =
               pendingStores st @ [(next_uuid st, next_timeout st)]"
    using fresh_u by (rule update_fresh)
  have 1: "distinct (map fst (timeouts st @ [(next_timeout st, t0)]))" for t0 :: "'a timeout"
    using D(1) fresh_h by simp
  have 2: "distinct (map fst (pendingStores st @ [(next_uuid st, next_timeout st)]))"
    using D(2) fresh_u by simp
  have 3: "\<forall>(h, t) \<in> set (timeouts st @
               [(next_timeout st, \<lparr>tm_delay = get_property (retriesIntervalMilliseconds (opts st)),
                                    tm_uuid = next_uuid st, tm_message = m, tm_promise = p\<rparr>)]).
             (tm_uuid t, h) \<in> set (pendingStores st @ [(next_uuid st, next_timeout st)]) \<and>
             h < Suc (next_timeout st)"
    using T by (auto simp: less_Suc_eq)
  have 4: "\<forall>(uuid, h) \<in> set (pendingStores st @ [(next_uuid st, next_timeout st)]).
             uuid < Suc (next_uuid st)"
    using P by (auto simp: less_Suc_eq)
  show ?thesis
    unfolding store_body_parked [OF False] timeouts_registered_iff upd
    using 1 2 3 4 by simp
qed

lemma registered_store:
  assumes "timeouts_registered st"
  shows "timeouts_registered (fst (store c m st))"
proof -
  have "timeouts_registered (st\<lparr>next_promise := Suc (next_promise st),
            promises := (promises st)(next_promise st := Pending)\<rparr>) = timeouts_registered st"
    by (rule registered_cong) simp_all
  with assms show ?thesis
    by (simp add: store_def Let_def registered_store_body)
qed

lemma registered_fire_timeout:
  assumes "timeouts_registered st"
  shows "timeouts_registered (fire_timeout c h st)"
proof (cases "map_of (timeouts st) h")
  case None
  with assms show ?thesis by (simp add: fire_timeout_def)
next
  case (Some t)
  from assms have D: "distinct (map fst (timeouts st))" "distinct (map fst (pendingStores st))"
    and T: "\<And>h t. (h, t) \<in> set (timeouts st) \<Longrightarrow>
              (tm_uuid t, h) \<in> set (pendingStores st) \<and> h < next_timeout st"
    and P: "\<And>uuid h. (uuid, h) \<in> set (pendingStores st) \<Longrightarrow> uuid < next_uuid st"
    by (auto simp: timeouts_registered_iff)
  from Some have ht: "(h, t) \<in> set (timeouts st)" by (rule map_of_SomeD)
  have other: "tm_uuid t' \<noteq> tm_uuid t" if "(h', t') \<in> set (timeouts st)" "h' \<noteq> h" for h' t'
  proof
    assume "tm_uuid t' = tm_uuid t"
    with T [OF that(1)] T [OF ht] have "(tm_uuid t, h') \<in> set (pendingStores st)"
      "(tm_uuid t, h) \<in> set (pendingStores st)" by auto
    with D(2) have "h' = h" by (rule eq_key_imp_eq_value)
    with that(2) show False by simp
  qed
  have 3: "\<forall>(h', t') \<in> set (AList.delete h (timeouts st)).
             (tm_uuid t', h') \<in> set (AList.delete (tm_uuid t) (pendingStores st)) \<and>
             h' < next_timeout st"
    using T other by (auto simp: set_delete)
  have 4: "\<forall>(uuid, h') \<in> set (AList.delete (tm_uuid t) (pendingStores st)). uuid < next_uuid st"
    using P by (auto simp: set_delete)
  have "timeouts_registered
          (st\<lparr>timeouts := AList.delete h (timeouts st),
              pendingStores := AList.delete (tm_uuid t) (pendingStores st)\<rparr>)"
    unfolding timeouts_registered_iff
    using D 3 4 by (simp add: AList.distinct_delete)
  then show ?thesis
    by (simp add: fire_timeout_def Some registered_store_body)
qed

lemma settle_frame:
  "timeouts (settle p outcome st) = timeouts st"
  "pendingStores (settle p outcome st) = pendingStores st"
  "next_timeout (settle p outcome st) = next_timeout st"
  "next_uuid (settle p outcome st) = next_uuid st"
  "immediates (settle p outcome st) = immediates st"
  "collaborator_calls (settle p outcome st) = collaborator_calls st"
  "write_events (settle p outcome st) = write_events st"
  "batch_callbacks (settle p outcome st) = batch_callbacks st"
  by (simp_all add: settle_def)

lemma run_immediate_frame:
  "timeouts (run_immediate st) = timeouts st"
  "pendingStores (run_immediate st) = pendingStores st"
  "next_timeout (run_immediate st) = next_timeout st"
  "next_uuid (run_immediate st) = next_uuid st"
  by (simp_all add: run_immediate_def split: list.splits prod.splits)

lemma batch_callback_frame:
  "timeouts (batch_callback p err st) = timeouts st"
  "pendingStores (batch_callback p err st) = pendingStores st"
  "next_timeout (batch_callback p err st) = next_timeout st"
  "next_uuid (batch_callback p err st) = next_uuid st"
  "immediates (batch_callback p err st) = immediates st"
  "collaborator_calls (batch_callback p err st) = collaborator_calls st"
  by (simp_all add: batch_callback_def settle_frame Let_def split: option.splits prod.splits)

lemma registered_run_immediate: "timeouts_registered st \<Longrightarrow> timeouts_registered (run_immediate st)"
  using registered_cong [of "run_immediate st" st] by (simp add: run_immediate_frame)

lemma registered_batch_callback:
  "timeouts_registered st \<Longrightarrow> timeouts_registered (batch_callback p err st)"
  using registered_cong [of "batch_callback p err st" st] by (simp add: batch_callback_frame)

lemma registered_run_event: "timeouts_registered st \<Longrightarrow> timeouts_registered (run_event c st ev)"
  by (cases ev) (simp_all add: registered_fire_timeout registered_run_immediate registered_batch_callback)

lemma registered_close_key_frame:
  "immediates (close_key st k) = immediates st"
  "batch_callbacks (close_key st k) = batch_callbacks st"
  "promises (close_key st k) = promises st"
  "write_events (close_key st k) = write_events st"
  "bm_counters (close_key st k) = bm_counters st"
  by (simp_all add: close_key_def clearTimeout_def Let_def split: option.splits)

lemma close_key_fields:
  "pendingStores (close_key st k) = AList.delete k (pendingStores st)"
  "timeouts (close_key st k) =
     (case map_of (pendingStores st) k of None \<Rightarrow> timeouts st
      | Some h \<Rightarrow> AList.delete h (timeouts st))"
  "collaborator_calls (close_key st k) =
     collaborator_calls st @
     (case map_of (pendingStores st) k of None \<Rightarrow> [] | Some h \<Rightarrow> [ClearTimeout h])"
  by (simp_all add: close_key_def clearTimeout_def Let_def split: option.splits)

lemma foldl_close_key_frame:
  "immediates (foldl close_key st ks) = immediates st \<and>
   batch_callbacks (foldl close_key st ks) = batch_callbacks st \<and>
   promises (foldl close_key st ks) = promises st \<and>
   write_events (foldl close_key st ks) = write_events st \<and>
   bm_counters (foldl close_key st ks) = bm_counters st"
  by (induction ks arbitrary: st) (simp_all add: registered_close_key_frame)

lemma foldl_close_key_pending:
  "pendingStores (foldl close_key st ks) = filter (\<lambda>x. fst x \<notin> set ks) (pendingStores st)"
proof (induction ks arbitrary: st)
  case Nil
  show ?case by simp
next
  case (Cons k ks)
  have "filter (\<lambda>x. fst x \<notin> set ks) (AList.delete k (pendingStores st)) =
        filter (\<lambda>x. fst x \<notin> set (k # ks)) (pendingStores st)"
    by (auto simp: AList.delete_eq intro: filter_cong)
  then show ?case by (simp add: Cons.IH close_key_fields)
qed

lemma map_of_delete_other: "k' \<noteq> k \<Longrightarrow> map_of (AList.delete k al) k' = map_of al k'"
  by (simp add: AList.delete_conv')

lemma foldl_close_key_timeouts:
  "distinct ks \<Longrightarrow>
   timeouts (foldl close_key st ks) =
     filter (\<lambda>x. \<forall>k \<in> set ks. map_of (pendingStores st) k \<noteq> Some (fst x)) (timeouts st)"
proof (induction ks arbitrary: st)
  case Nil
  show ?case by simp
next
  case (Cons k ks)
  then have k: "k \<notin> set ks" and d: "distinct ks" by simp_all
  have ne: "k' \<noteq> k" if "k' \<in> set ks" for k'
    using that k by auto
  have P: "(\<forall>k' \<in> set ks. map_of (AList.delete k (pendingStores st)) k' \<noteq> Some h) =
           (\<forall>k' \<in> set ks. map_of (pendingStores st) k' \<noteq> Some h)" for h
    by (simp add: map_of_delete_other ne)
  have "timeouts (foldl close_key (close_key st k) ks) =
          filter (\<lambda>x. \<forall>k' \<in> set ks. map_of (pendingStores st) k' \<noteq> Some (fst x))
            (timeouts (close_key st k))"
    by (simp add: Cons.IH [OF d] close_key_fields(1) P)
  also have "\<dots> = filter (\<lambda>x. \<forall>k' \<in> set (k # ks). map_of (pendingStores st) k' \<noteq> Some (fst x))
                     (timeouts st)"
    by (cases "map_of (pendingStores st) k")
       (auto simp: close_key_fields(2) AList.delete_eq intro: filter_cong)
  finally show ?case by simp
qed

lemma foldl_close_key_calls:
  "distinct ks \<Longrightarrow>
   collaborator_calls (foldl close_key st ks) =
     collaborator_calls st @
     concat (map (\<lambda>k. case map_of (pendingStores st) k of None \<Rightarrow> []
                      | Some h \<Rightarrow> [ClearTimeout h]) ks)"
proof (induction ks arbitrary: st)
  case Nil
  show ?case by simp
next
  case (Cons k ks)
  then have k: "k \<notin> set ks" and d: "distinct ks" by simp_all
  have "map (\<lambda>k'. case map_of (AList.delete k (pendingStores st)) k' of None \<Rightarrow> []
                   | Some h \<Rightarrow> [ClearTimeout h :: 'a collaborator_call]) ks =
        map (\<lambda>k'. case map_of (pendingStores st) k' of None \<Rightarrow> []
                   | Some h \<Rightarrow> [ClearTimeout h]) ks"
  proof (rule map_cong [OF refl])
    fix k' assume "k' \<in> set ks"
    with k have "k' \<noteq> k" by auto
    then show "(case map_of (AList.delete k (pendingStores st)) k' of None \<Rightarrow> []
                 | Some h \<Rightarrow> [ClearTimeout h :: 'a collaborator_call]) =
               (case map_of (pendingStores st) k' of None \<Rightarrow> [] | Some h \<Rightarrow> [ClearTimeout h])"
      by (simp add: map_of_delete_other)
  qed
  note E = this
  show ?case
    by (simp add: Cons.IH [OF d] close_key_fields E)
qed

lemma close_pendingStores: "pendingStores (close st) = []"
  by (simp add: close_def Let_def foldl_close_key_pending)

lemma close_frame:
  "immediates (close st) = immediates st"
  "batch_callbacks (close st) = batch_callbacks st"
  "promises (close st) = promises st"
  "write_events (close st) = write_events st"
  "bm_counters (close st) = bm_counters st"
  using foldl_close_key_frame [of st "map fst (pendingStores st)"]
  by (simp_all add: close_def Let_def)

lemma close_timeouts:
  assumes "timeouts_registered st"
  shows "timeouts (close st) = []"
proof -
  from assms have D: "distinct (map fst (pendingStores st))"
    and T: "\<And>h t. (h, t) \<in> set (timeouts st) \<Longrightarrow> (tm_uuid t, h) \<in> set (pendingStores st)"
    by (auto simp: timeouts_registered_iff)
  have "\<exists>k \<in> set (map fst (pendingStores st)). map_of (pendingStores st) k = Some (fst x)"
    if "x \<in> set (timeouts st)" for x
  proof -
    obtain h t where x: "x = (h, t)" by (cases x)
    with that T have "(tm_uuid t, h) \<in> set (pendingStores st)" by simp
    with D have "map_of (pendingStores st) (tm_uuid t) = Some h" by simp
    moreover have "tm_uuid t \<in> set (map fst (pendingStores st))"
      using \<open>(tm_uuid t, h) \<in> set (pendingStores st)\<close> by force
    ultimately show ?thesis
      unfolding x by (intro bexI [of _ "tm_uuid t"]) simp_all
  qed
  then show ?thesis
    by (simp add: close_def Let_def foldl_close_key_timeouts [OF D] filter_empty_conv)
qed

lemma close_calls:
  assumes "timeouts_registered st"
  shows "collaborator_calls (close st) =
           collaborator_calls st @ map ClearTimeout (map snd (pendingStores st)) @
           [BucketManagerStop, BatchManagerStop, CassandraClientShutdown]"
proof -
  from assms have D: "distinct (map fst (pendingStores st))"
    by (simp add: timeouts_registered_iff)
  have one: "(case map_of (pendingStores st) (fst x) of None \<Rightarrow> []
                | Some h \<Rightarrow> [ClearTimeout h :: 'a collaborator_call]) = [ClearTimeout (snd x)]"
    if "x \<in> set (pendingStores st)" for x
  proof -
    from that have "(fst x, snd x) \<in> set (pendingStores st)" by simp
    with D have "map_of (pendingStores st) (fst x) = Some (snd x)" by simp
    then show ?thesis by simp
  qed
  have "concat (map (\<lambda>k. case map_of (pendingStores st) k of None \<Rightarrow> []
                  | Some h \<Rightarrow> [ClearTimeout h :: 'a collaborator_call])
          (map fst (pendingStores st))) =
        concat (map (\<lambda>x. [ClearTimeout (snd x)]) (pendingStores st))"
    unfolding map_map comp_def
    by (rule arg_cong [where f = concat], rule map_cong [OF refl]) (rule one)
  also have "\<dots> = map ClearTimeout (map snd (pendingStores st))"
    by (induction "pendingStores st") simp_all
  finally show ?thesis
    by (simp add: close_def Let_def foldl_close_key_calls [OF D])
qed

lemma registered_close:
  assumes "timeouts_registered st"
  shows "timeouts_registered (close st)"
  by (simp add: timeouts_registered_def close_timeouts [OF assms] close_pendingStores)

lemma reachable_registered: "reachable c st \<Longrightarrow> timeouts_registered st"
proof (induction rule: reachable.induct)
  case (constructed bucket_lookup opts_given)
  show ?case by (rule registered_constructor)
next
  case (stored st streamMessage)
  then show ?case by (simp add: registered_store)
next
  case (event st ev)
  then show ?case by (simp add: registered_run_event)
next
  case (buckets_changed st bucket_lookup)
  then show ?case
    using registered_cong [of "st\<lparr>bm_getBucketId := bucket_lookup\<rparr>" st] by simp
next
  case (closed st)
  from closed.IH show ?case by (rule registered_close)
qed

lemma fire_timeout_not_armed: "timeouts st = [] \<Longrightarrow> fire_timeout c h st = st"
  by (simp add: fire_timeout_def)

lemma run_immediate_fields:
  "immediates st = (b, m, p) # rest \<Longrightarrow>
   immediates (run_immediate st) = rest \<and>
   batch_callbacks (run_immediate st) = batch_callbacks st @ [(b, m, p)] \<and>
   collaborator_calls (run_immediate st) = collaborator_calls st @ [BatchManagerStore b m]"
  "immediates st = [] \<Longrightarrow> run_immediate st = st"
  by (simp_all add: run_immediate_def)

lemma run_events_Cons: "run_events c (ev # evs) st = run_events c evs (run_event c st ev)"
  by (simp add: run_events_def)

lemma run_events_no_timeouts:
  assumes "timeouts st = []"
  shows "\<exists>k. collaborator_calls (run_events c evs st) =
               collaborator_calls st @
               map (\<lambda>(b, m, p). BatchManagerStore b m) (take k (immediates st)) \<and>
             immediates (run_events c evs st) = drop k (immediates st) \<and>
             timeouts (run_events c evs st) = [] \<and>
             pendingStores (run_events c evs st) = pendingStores st"
  using assms
proof (induction evs arbitrary: st)
  case Nil
  show ?case by (rule exI [of _ 0]) (simp add: run_events_def Nil)
next
  case (Cons ev evs)
  note step = run_events_Cons
  show ?case
  proof (cases ev)
    case (Fire h)
    with Cons.prems have "run_event c st ev = st" by (simp add: fire_timeout_not_armed)
    with Cons.IH [OF Cons.prems] show ?thesis by (simp add: step)
  next
    case (Callback p err)
    let ?st = "batch_callback p err st"
    from Cons.prems have "timeouts ?st = []" by (simp add: batch_callback_frame)
    from Cons.IH [OF this] show ?thesis
      by (simp add: step Callback batch_callback_frame)
  next
    case Immediate
    show ?thesis
    proof (cases "immediates st")
      case Nil
      then have "run_event c st ev = st" by (simp add: Immediate run_immediate_fields)
      with Cons.IH [OF Cons.prems] show ?thesis by (simp add: step)
    next
      case (Cons x rest)
      obtain b m p where x: "x = (b, m, p)" by (cases x)
      let ?st = "run_immediate st"
      note F = run_immediate_fields(1) [OF Cons [unfolded x]]
      from Cons.prems \<open>timeouts st = []\<close> have "timeouts ?st = []"
        by (simp add: run_immediate_frame)
      from Cons.IH [OF this] obtain k where k:
        "collaborator_calls (run_events c evs ?st) =
           collaborator_calls ?st @ map (\<lambda>(b, m, p). BatchManagerStore b m) (take k (immediates ?st))"
        "immediates (run_events c evs ?st) = drop k (immediates ?st)"
        "timeouts (run_events c evs ?st) = []"
        "pendingStores (run_events c evs ?st) = pendingStores ?st"
        by blast
      show ?thesis
        by (rule exI [of _ "Suc k"])
           (simp add: step Immediate k F Cons x run_immediate_frame)
    qed
  qed
qed

lemma delete_fresh: "k \<notin> fst ` set al \<Longrightarrow> AList.delete k al = al"
  by (induction al) auto

lemma fire_timeout_after_parking:
  assumes "timeouts_registered st"
    and "\<not> truthy (bm_getBucketId st (getStreamId c m) (getStreamPartition c m) (getTimestamp c m))"
  shows "fire_timeout c (next_timeout st) (store_body c m p st) =
           store_body c m p
             (st\<lparr>next_uuid := Suc (next_uuid st), next_timeout := Suc (next_timeout st)\<rparr>)"
proof -
  from assms(1) have
    T: "\<And>h t. (h, t) \<in> set (timeouts st) \<Longrightarrow> h < next_timeout st"
    and P: "\<And>uuid h. (uuid, h) \<in> set (pendingStores st) \<Longrightarrow> uuid < next_uuid st"
    by (auto simp: timeouts_registered_iff)
  have fresh_h: "next_timeout st \<notin> fst ` set (timeouts st)"
    using T by fastforce
  have fresh_u: "next_uuid st \<notin> fst ` set (pendingStores st)"
    using P by fastforce
  let ?t = "\<lparr>tm_delay = get_property (retriesIntervalMilliseconds (opts st)), tm_uuid = next_uuid st,
             tm_message = m, tm_promise = p\<rparr>"
  have look: "map_of (timeouts st @ [(next_timeout st, ?t)]) (next_timeout st) = Some ?t"
    using fresh_h by (simp add: map_of_eq_None_iff [THEN iffD2] map_add_def)
  have del_t: "AList.delete (next_timeout st) (timeouts st @ [(next_timeout st, ?t)]) = timeouts st"
    using delete_fresh [OF fresh_h] by (simp add: AList.delete_eq)
  have del_p: "AList.delete (next_uuid st)
                 (AList.update (next_uuid st) (next_timeout st) (pendingStores st)) = pendingStores st"
    using delete_fresh [OF fresh_u] by (simp add: update_fresh [OF fresh_u] AList.delete_eq)
  show ?thesis
    unfolding store_body_parked [OF assms(2)]
    by (simp add: fire_timeout_def look del_t del_p del: map_of_append)
qed

lemma batch_callback_settles:
  assumes "find (\<lambda>(b, m, q). q = p) (batch_callbacks st) = Some (b, m, p)"
    and "promises st p = Pending"
  shows "promises (batch_callback p None st) p = Resolved True"
    and "write_events (batch_callback p None st) = write_events st @ [m]"
    and "promises (batch_callback p (Some err) st) p = Rejected err"
    and "write_events (batch_callback p (Some err) st) = write_events st"
  using assms by (simp_all add: batch_callback_def settle_def Let_def)

lemma constructor_retries_interval:
  "get_property (retriesIntervalMilliseconds (opts (constructor bucket_lookup opts_given))) =
     (case retriesIntervalMilliseconds opts_given of Absent \<Rightarrow> Some 500 | Present v \<Rightarrow> v)"
  by (simp add: constructor_def spread_def defaultOptions_def get_property_def
      split: property.splits)

lemma fire_timeout_after_parking_changed:
  assumes "timeouts_registered st"
    and "\<not> truthy (bm_getBucketId st (getStreamId c m) (getStreamPartition c m) (getTimestamp c m))"
  shows "fire_timeout c (next_timeout st) ((store_body c m p st)\<lparr>bm_getBucketId := f\<rparr>) =
           store_body c m p
             (st\<lparr>next_uuid := Suc (next_uuid st), next_timeout := Suc (next_timeout st),
                 bm_getBucketId := f\<rparr>)"
proof -
  from assms(1) have
    T: "\<And>h t. (h, t) \<in> set (timeouts st) \<Longrightarrow> h < next_timeout st"
    and P: "\<And>uuid h. (uuid, h) \<in> set (pendingStores st) \<Longrightarrow> uuid < next_uuid st"
    by (auto simp: timeouts_registered_iff)
  have fresh_h: "next_timeout st \<notin> fst ` set (timeouts st)"
    using T by fastforce
  have fresh_u: "next_uuid st \<notin> fst ` set (pendingStores st)"
    using P by fastforce
  let ?t = "\<lparr>tm_delay = get_property (retriesIntervalMilliseconds (opts st)), tm_uuid = next_uuid st,
             tm_message = m, tm_promise = p\<rparr>"
  have look: "map_of (timeouts st @ [(next_timeout st, ?t)]) (next_timeout st) = Some ?t"
    using fresh_h by (simp add: map_of_eq_None_iff [THEN iffD2] map_add_def)
  have del_t: "AList.delete (next_timeout st) (timeouts st @ [(next_timeout st, ?t)]) = timeouts st"
    using delete_fresh [OF fresh_h] by (simp add: AList.delete_eq)
  have del_p: "AList.delete (next_uuid st)
                 (AList.update (next_uuid st) (next_timeout st) (pendingStores st)) = pendingStores st"
    using delete_fresh [OF fresh_u] by (simp add: update_fresh [OF fresh_u] AList.delete_eq)
  show ?thesis
    unfolding store_body_parked [OF assms(2)]
    by (simp add: fire_timeout_def look del_t del_p del: map_of_append)
qed

lemma fire_timeout_delivers:
  assumes "timeouts_registered st"
    and "\<not> truthy (bm_getBucketId st (getStreamId c m) (getStreamPartition c m) (getTimestamp c m))"
    and "truthy (f (getStreamId c m) (getStreamPartition c m) (getTimestamp c m))"
  shows "fire_timeout c (next_timeout st) ((store_body c m p st)\<lparr>bm_getBucketId := f\<rparr>) =
           st\<lparr>next_uuid := Suc (next_uuid st), next_timeout := Suc (next_timeout st),
              bm_getBucketId := f,
              bm_counters := incrementBucket (bm_counters st)
                  (the (f (getStreamId c m) (getStreamPartition c m) (getTimestamp c m)))
                  (byteLength (serialize c m)),
              collaborator_calls := collaborator_calls st @
                 [IncrementBucket
                    (the (f (getStreamId c m) (getStreamPartition c m) (getTimestamp c m)))
                    (byteLength (serialize c m))],
              immediates := immediates st @
                 [(the (f (getStreamId c m) (getStreamPartition c m) (getTimestamp c m)), m, p)]\<rparr>"
  unfolding fire_timeout_after_parking_changed [OF assms(1,2)]
  using assms(3) by (simp add: store_body_def Let_def)

lemma fire_timeout_armed:
  "map_of (timeouts st) h = Some t \<Longrightarrow>
   fire_timeout c h st =
     store_body c (tm_message t) (tm_promise t)
       (st\<lparr>timeouts := AList.delete h (timeouts st),
           pendingStores := AList.delete (tm_uuid t) (pendingStores st)\<rparr>)"
  by (simp add: fire_timeout_def)

text \<open>
  C6. In every state whose armed timeouts are registered (every reachable state:
  \<open>reachable_registered\<close>), \<open>store\<close> runs its body for a new pending promise \<open>p\<close>.
  When the bucket manager answers with a bucket id, the body increments that bucket's
  counters by the byte length of the serialized message and queues the message for the
  batch manager; the queued immediate hands it over; the callback of the batch manager
  resolves \<open>p\<close> with \<open>true\<close> after emitting \<open>'write'\<close>, or rejects \<open>p\<close> with the batch
  manager's error. When it answers with none, the body arms a timeout with the
  configured interval and records it in \<open>pendingStores\<close> under a fresh key. A timeout
  that fires deletes its entry and runs the body of \<open>store\<close> again, from the lookup on,
  for the same message and promise, with what the bucket manager answers then: when it
  still answers with none the message is parked again under a new key, and when it has
  come to answer with a bucket id the counters of that bucket are incremented and the
  message is queued for the batch manager, with no entry or timeout left behind. The
  interval is 500 when the options have no \<open>retriesIntervalMilliseconds\<close>, and what
  the options give otherwise, also when they give \<open>undefined\<close>.
\<close>

theorem store_delivers_or_parks:
  assumes "timeouts_registered st"
  shows
   "store c m st =
      (store_body c m (next_promise st)
         (st\<lparr>next_promise := Suc (next_promise st),
             promises := (promises st)(next_promise st := Pending)\<rparr>), next_promise st)
    \<and> (truthy (bm_getBucketId st (getStreamId c m) (getStreamPartition c m) (getTimestamp c m)) \<longrightarrow>
         store_body c m p st =
           st\<lparr>bm_counters := incrementBucket (bm_counters st)
                  (the (bm_getBucketId st (getStreamId c m) (getStreamPartition c m) (getTimestamp c m)))
                  (byteLength (serialize c m)),
              collaborator_calls := collaborator_calls st @
                 [IncrementBucket
                    (the (bm_getBucketId st (getStreamId c m) (getStreamPartition c m) (getTimestamp c m)))
                    (byteLength (serialize c m))],
              immediates := immediates st @
                 [(the (bm_getBucketId st (getStreamId c m) (getStreamPartition c m) (getTimestamp c m)),
                   m, p)]\<rparr>)
    \<and> (immediates st = (b, m, p) # rest \<longrightarrow>
         immediates (run_immediate st) = rest \<and>
         batch_callbacks (run_immediate st) = batch_callbacks st @ [(b, m, p)] \<and>
         collaborator_calls (run_immediate st) = collaborator_calls st @ [BatchManagerStore b m])
    \<and> (find (\<lambda>(b, m, q). q = p) (batch_callbacks st) = Some (b, m, p) \<and> promises st p = Pending \<longrightarrow>
         promises (batch_callback p None st) p = Resolved True \<and>
         write_events (batch_callback p None st) = write_events st @ [m] \<and>
         promises (batch_callback p (Some err) st) p = Rejected err \<and>
         write_events (batch_callback p (Some err) st) = write_events st)
    \<and> (\<not> truthy (bm_getBucketId st (getStreamId c m) (getStreamPartition c m) (getTimestamp c m)) \<longrightarrow>
         store_body c m p st =
           st\<lparr>next_uuid := Suc (next_uuid st),
              next_timeout := Suc (next_timeout st),
              timeouts := timeouts st @
                 [(next_timeout st, \<lparr>tm_delay = get_property (retriesIntervalMilliseconds (opts st)),
                                      tm_uuid = next_uuid st, tm_message = m, tm_promise = p\<rparr>)],
              pendingStores := AList.update (next_uuid st) (next_timeout st) (pendingStores st)\<rparr>
         \<and> map_of (pendingStores (store_body c m p st)) (next_uuid st) = Some (next_timeout st)
         \<and> fire_timeout c (next_timeout st) (store_body c m p st) =
             store_body c m p
               (st\<lparr>next_uuid := Suc (next_uuid st), next_timeout := Suc (next_timeout st)\<rparr>)
         \<and> fire_timeout c (next_timeout st) ((store_body c m p st)\<lparr>bm_getBucketId := f\<rparr>) =
             store_body c m p
               (st\<lparr>next_uuid := Suc (next_uuid st), next_timeout := Suc (next_timeout st),
                   bm_getBucketId := f\<rparr>))
    \<and> (\<not> truthy (bm_getBucketId st (getStreamId c m) (getStreamPartition c m) (getTimestamp c m)) \<and>
        truthy (f (getStreamId c m) (getStreamPartition c m) (getTimestamp c m)) \<longrightarrow>
         fire_timeout c (next_timeout st) ((store_body c m p st)\<lparr>bm_getBucketId := f\<rparr>) =
           st\<lparr>next_uuid := Suc (next_uuid st), next_timeout := Suc (next_timeout st),
              bm_getBucketId := f,
              bm_counters := incrementBucket (bm_counters st)
                  (the (f (getStreamId c m) (getStreamPartition c m) (getTimestamp c m)))
                  (byteLength (serialize c m)),
              collaborator_calls := collaborator_calls st @
                 [IncrementBucket
                    (the (f (getStreamId c m) (getStreamPartition c m) (getTimestamp c m)))
                    (byteLength (serialize c m))],
              immediates := immediates st @
                 [(the (f (getStreamId c m) (getStreamPartition c m) (getTimestamp c m)), m, p)]\<rparr>)
    \<and> (map_of (timeouts st) h = Some t \<longrightarrow>
         fire_timeout c h st =
           store_body c (tm_message t) (tm_promise t)
             (st\<lparr>timeouts := AList.delete h (timeouts st),
                 pendingStores := AList.delete (tm_uuid t) (pendingStores st)\<rparr>))
    \<and> get_property (retriesIntervalMilliseconds (opts (constructor bucket_lookup opts_given))) =
         (case retriesIntervalMilliseconds opts_given of Absent \<Rightarrow> Some 500 | Present v \<Rightarrow> v)"
proof -
  note R = assms
  have 1: "store c m st =
      (store_body c m (next_promise st)
         (st\<lparr>next_promise := Suc (next_promise st),
             promises := (promises st)(next_promise st := Pending)\<rparr>), next_promise st)"
    by (simp add: store_def Let_def)
  have 5: "map_of (pendingStores (store_body c m p st)) (next_uuid st) = Some (next_timeout st)"
    if "\<not> truthy (bm_getBucketId st (getStreamId c m) (getStreamPartition c m) (getTimestamp c m))"
    by (simp add: store_body_parked [OF that] AList.update_conv')
  show ?thesis
    using 1 5 store_body_found [of st c m p] store_body_parked [of st c m p]
      run_immediate_fields(1) [of st b m p rest]
      batch_callback_settles [where p = p and st = st and b = b and m = m]
      fire_timeout_after_parking [OF R, of c m p]
      fire_timeout_after_parking_changed [OF R, where c = c and m = m and p = p and f = f]
      fire_timeout_delivers [OF R, where c = c and m = m and p = p and f = f]
      fire_timeout_armed [where st = st and h = h and t = t and c = c]
      constructor_retries_interval [of bucket_lookup opts_given]
    by blast
qed

theorem store_delivers_or_parks_witness:
  "bm_counters (fst (store example_codec ''hello'' example_store_bucket)) ''A'' = (5, 1)
   \<and> immediates (fst (store example_codec ''hello'' example_store_bucket)) = [(''A'', ''hello'', 0)]
   \<and> snd (store example_codec ''hello'' example_store_bucket) = 0
   \<and> batch_callbacks (run_immediate (fst (store example_codec ''hello'' example_store_bucket))) =
       [(''A'', ''hello'', 0)]
   \<and> promises (batch_callback 0 None
        (run_immediate (fst (store example_codec ''hello'' example_store_bucket)))) 0 = Resolved True
   \<and> write_events (batch_callback 0 None
        (run_immediate (fst (store example_codec ''hello'' example_store_bucket)))) = [''hello'']
   \<and> promises (batch_callback 0 (Some (Error ''write failed''))
        (run_immediate (fst (store example_codec ''hello'' example_store_bucket)))) 0 =
       Rejected (Error ''write failed'')
   \<and> pendingStores (fst (store example_codec ''hello'' example_store_no_bucket)) = [(0, 0)]
   \<and> map (\<lambda>(h, t). (h, tm_delay t, tm_message t))
        (timeouts (fst (store example_codec ''hello'' example_store_no_bucket))) =
       [(0, Some 500, ''hello'')]
   \<and> pendingStores (fire_timeout example_codec 0
        (fst (store example_codec ''hello'' example_store_no_bucket))) = [(1, 1)]
   \<and> map fst (timeouts (fire_timeout example_codec 0
        (fst (store example_codec ''hello'' example_store_no_bucket)))) = [1]
   \<and> pendingStores (fire_timeout example_codec 0
        ((fst (store example_codec ''hello'' example_store_no_bucket))
           \<lparr>bm_getBucketId := (\<lambda>streamId part timestamp. Some ''A'')\<rparr>)) = []
   \<and> timeouts (fire_timeout example_codec 0
        ((fst (store example_codec ''hello'' example_store_no_bucket))
           \<lparr>bm_getBucketId := (\<lambda>streamId part timestamp. Some ''A'')\<rparr>)) = []
   \<and> immediates (fire_timeout example_codec 0
        ((fst (store example_codec ''hello'' example_store_no_bucket))
           \<lparr>bm_getBucketId := (\<lambda>streamId part timestamp. Some ''A'')\<rparr>)) = [(''A'', ''hello'', 0)]
   \<and> bm_counters (fire_timeout example_codec 0
        ((fst (store example_codec ''hello'' example_store_no_bucket))
           \<lparr>bm_getBucketId := (\<lambda>streamId part timestamp. Some ''A'')\<rparr>)) ''A'' = (5, 1)
   \<and> promises (batch_callback 0 None (run_immediate (fire_timeout example_codec 0
        ((fst (store example_codec ''hello'' example_store_no_bucket))
           \<lparr>bm_getBucketId := (\<lambda>streamId part timestamp. Some ''A'')\<rparr>)))) 0 = Resolved True
   \<and> write_events (batch_callback 0 None (run_immediate (fire_timeout example_codec 0
        ((fst (store example_codec ''hello'' example_store_no_bucket))
           \<lparr>bm_getBucketId := (\<lambda>streamId part timestamp. Some ''A'')\<rparr>)))) = [''hello'']
   \<and> map (\<lambda>(h, t). tm_delay t)
        (timeouts (fst (store example_codec ''hello''
           (constructor (\<lambda>streamId part timestamp. None)
              \<lparr>useTtl = Absent, retriesIntervalMilliseconds = Present None\<rparr>)))) = [None]
   \<and> map (\<lambda>(h, t). tm_delay t)
        (timeouts (fst (store example_codec ''hello''
           (constructor (\<lambda>streamId part timestamp. None)
              \<lparr>useTtl = Absent, retriesIntervalMilliseconds = Present (Some 20)\<rparr>)))) = [Some 20]"
proof -
  let ?f = "\<lambda>streamId part timestamp. Some ''A''"
  let ?later = "fire_timeout example_codec 0
        ((fst (store example_codec ''hello'' example_store_no_bucket))\<lparr>bm_getBucketId := ?f\<rparr>)"
  have Rb: "timeouts_registered example_store_bucket"
    unfolding example_store_bucket_def by (rule registered_constructor)
  have Rn: "timeouts_registered example_store_no_bucket"
    unfolding example_store_no_bucket_def by (rule registered_constructor)
  note Tb = store_delivers_or_parks [OF Rb, where c = example_codec and m = "''hello''"]
  note Tn = store_delivers_or_parks [OF Rn, where c = example_codec and m = "''hello''"]
  note defs = example_store_bucket_def example_store_no_bucket_def example_codec_def
    constructor_def spread_def defaultOptions_def get_property_def store_def store_body_def truthy_def
    incrementBucket_def byteLength_def run_immediate_def batch_callback_def settle_def
    fire_timeout_def Let_def
  have 1: "bm_counters (fst (store example_codec ''hello'' example_store_bucket)) ''A'' = (5, 1)"
    by (simp add: defs)
  have 2: "immediates (fst (store example_codec ''hello'' example_store_bucket)) =
             [(''A'', ''hello'', 0)]"
    by (simp add: defs)
  have 3: "snd (store example_codec ''hello'' example_store_bucket) = 0"
    using Tb [THEN conjunct1] by (simp add: defs)
  have 4: "batch_callbacks (run_immediate (fst (store example_codec ''hello'' example_store_bucket))) =
       [(''A'', ''hello'', 0)]"
    by (simp add: defs)
  have 5: "promises (batch_callback 0 None
        (run_immediate (fst (store example_codec ''hello'' example_store_bucket)))) 0 = Resolved True"
    by (simp add: defs)
  have 6: "write_events (batch_callback 0 None
        (run_immediate (fst (store example_codec ''hello'' example_store_bucket)))) = [''hello'']"
    by (simp add: defs)
  have 7: "promises (batch_callback 0 (Some (Error ''write failed''))
        (run_immediate (fst (store example_codec ''hello'' example_store_bucket)))) 0 =
       Rejected (Error ''write failed'')"
    by (simp add: defs)
  have 8: "pendingStores (fst (store example_codec ''hello'' example_store_no_bucket)) = [(0, 0)]"
    using Tn [THEN conjunct1] by (simp add: defs)
  have 9: "map (\<lambda>(h, t). (h, tm_delay t, tm_message t))
        (timeouts (fst (store example_codec ''hello'' example_store_no_bucket))) =
       [(0, Some 500, ''hello'')]"
    by (simp add: defs)
  have 10: "pendingStores (fire_timeout example_codec 0
        (fst (store example_codec ''hello'' example_store_no_bucket))) = [(1, 1)]"
    by (simp add: defs)
  have 11: "map fst (timeouts (fire_timeout example_codec 0
        (fst (store example_codec ''hello'' example_store_no_bucket)))) = [1]"
    by (simp add: defs)
  have 12: "pendingStores ?later = []"
    by (simp add: defs)
  have 13: "timeouts ?later = []"
    by (simp add: defs)
  have 14: "immediates ?later = [(''A'', ''hello'', 0)]"
    by (simp add: defs)
  have 15: "bm_counters ?later ''A'' = (5, 1)"
    by (simp add: defs)
  have 16: "promises (batch_callback 0 None (run_immediate ?later)) 0 = Resolved True"
    by (simp add: defs)
  have 17: "write_events (batch_callback 0 None (run_immediate ?later)) = [''hello'']"
    by (simp add: defs)
  have 18: "map (\<lambda>(h, t). tm_delay t)
        (timeouts (fst (store example_codec ''hello''
           (constructor (\<lambda>streamId part timestamp. None)
              \<lparr>useTtl = Absent, retriesIntervalMilliseconds = Present None\<rparr>)))) = [None]"
    by (simp add: defs)
  have 19: "map (\<lambda>(h, t). tm_delay t)
        (timeouts (fst (store example_codec ''hello''
           (constructor (\<lambda>streamId part timestamp. None)
              \<lparr>useTtl = Absent, retriesIntervalMilliseconds = Present (Some 20)\<rparr>)))) = [Some 20]"
    by (simp add: defs)
  from 1 2 3 4 5 6 7 8 9 10 11 12 13 14 15 16 17 18 19 show ?thesis by blast
qed

text \<open>
  C9. In every reachable state, \<open>close\<close> calls \<open>clearTimeout\<close> for every entry of
  \<open>pendingStores\<close>, in order, then stops the bucket manager, then the batch manager, then
  shuts the client down. Afterwards \<open>pendingStores\<close> is empty and no timeout is armed,
  so none can fire; whatever the event loop still runs, the only messages handed to the
  batch manager are those already queued by \<open>setImmediate\<close> when \<open>close\<close> was called,
  never a parked one.
\<close>

theorem close_cancels_pending_stores:
  assumes "reachable c st"
  shows
   "pendingStores (close st) = []
    \<and> timeouts (close st) = []
    \<and> fst ` set (timeouts st) \<subseteq> snd ` set (pendingStores st)
    \<and> collaborator_calls (close st) =
        collaborator_calls st @ map ClearTimeout (map snd (pendingStores st)) @
        [BucketManagerStop, BatchManagerStop, CassandraClientShutdown]
    \<and> (\<forall>h. fire_timeout c h (close st) = close st)
    \<and> (\<forall>evs. \<exists>k.
          collaborator_calls (run_events c evs (close st)) =
            collaborator_calls (close st) @
            map (\<lambda>(b, m, p). BatchManagerStore b m) (take k (immediates st)) \<and>
          timeouts (run_events c evs (close st)) = [] \<and>
          pendingStores (run_events c evs (close st)) = [])"
proof -
  note R = reachable_registered [OF assms]
  have T: "timeouts (close st) = []"
    by (rule close_timeouts [OF R])
  have S: "fst ` set (timeouts st) \<subseteq> snd ` set (pendingStores st)"
    using R by (force simp: timeouts_registered_iff)
  have E: "\<exists>k. collaborator_calls (run_events c evs (close st)) =
            collaborator_calls (close st) @
            map (\<lambda>(b, m, p). BatchManagerStore b m) (take k (immediates st)) \<and>
          timeouts (run_events c evs (close st)) = [] \<and>
          pendingStores (run_events c evs (close st)) = []" for evs
    using run_events_no_timeouts [OF T, of c evs]
    by (auto simp: close_frame close_pendingStores)
  show ?thesis
    using T S E close_calls [OF R] fire_timeout_not_armed [OF T, of c]
    by (simp add: close_pendingStores)
qed

theorem close_cancels_pending_stores_witness:
  "reachable example_codec (fst (store example_codec ''hello'' example_store_no_bucket))
   \<and> pendingStores (fst (store example_codec ''hello'' example_store_no_bucket)) = [(0, 0)]
   \<and> map fst (timeouts (fst (store example_codec ''hello'' example_store_no_bucket))) = [0]
   \<and> pendingStores (close (fst (store example_codec ''hello'' example_store_no_bucket))) = []
   \<and> timeouts (close (fst (store example_codec ''hello'' example_store_no_bucket))) = []
   \<and> collaborator_calls (close (fst (store example_codec ''hello'' example_store_no_bucket))) =
       [ClearTimeout 0, BucketManagerStop, BatchManagerStop, CassandraClientShutdown]
   \<and> fire_timeout example_codec 0
        (close (fst (store example_codec ''hello'' example_store_no_bucket))) =
       close (fst (store example_codec ''hello'' example_store_no_bucket))"
proof -
  have R: "reachable example_codec (fst (store example_codec ''hello'' example_store_no_bucket))"
    unfolding example_store_no_bucket_def by (intro reachable.stored reachable.constructed)
  note T = close_cancels_pending_stores [OF R]
  note defs = example_store_no_bucket_def example_codec_def constructor_def spread_def
    defaultOptions_def get_property_def store_def store_body_def truthy_def Let_def
  have P: "pendingStores (fst (store example_codec ''hello'' example_store_no_bucket)) = [(0, 0)]"
    by (simp add: defs)
  have M: "map fst (timeouts (fst (store example_codec ''hello'' example_store_no_bucket))) = [0]"
    by (simp add: defs)
  have C0: "collaborator_calls (fst (store example_codec ''hello'' example_store_no_bucket)) = []"
    by (simp add: defs)
  have C: "collaborator_calls (close (fst (store example_codec ''hello'' example_store_no_bucket))) =
       [ClearTimeout 0, BucketManagerStop, BatchManagerStop, CassandraClientShutdown]"
    using T by (simp add: P C0)
  from R P M C T show ?thesis by blast
qed

end
